theory Spec2Isabelle
  imports Complex_Main "HOL-Library.Word"
begin

unbundle bit_operations_syntax

section \<open>Node provisioning: NodePrioritizer\<close>

text \<open>
  The part of \<open>NodePrioritizer\<close> that decides whether an allocation replaces failed
  nodes. A node carries its state and, when allocated, the owning application and the
  id of the cluster it is a member of. The requested nodes are either a
  \<open>NodeSpec.CountNodeSpec\<close> (a count) or another kind of \<open>NodeSpec\<close>, for which
  \<open>isReplacement\<close> leaves \<open>wantedCount\<close> at 0. Java's \<open>long\<close> and \<open>int\<close>
  are modelled as \<open>int\<close>: the values are list lengths and a node count, far from
  the 64-bit range.
\<close>

datatype node_state =
  provisioned | ready | reserved | active | inactive | dirty | failed | parked












section \<open>Reference attribute: compaction on commit\<close>

text \<open>
  \<open>ReferenceAttribute::considerCompact\<close> reads the cached memory usage of the unique
  store (\<open>size_t\<close> byte counts, here \<open>nat\<close>) and the configured
  \<open>maxDeadBytesRatio\<close> (a \<open>double\<close>). The C++ expression
  \<open>usedBytes * ratio < deadBytes\<close> converts both byte counts to \<open>double\<close> and
  multiplies in \<open>double\<close>; a double is modelled by the real number it denotes, and
  the two rounding operations (conversion of a \<open>size_t\<close>, multiplication) are
  parameters \<open>to_double\<close> and \<open>dmul\<close> of the model, so that what is proved holds
  for the machine's arithmetic as well as for exact arithmetic.
  \<open>compactWorst\<close> works on the store's buffers; the model counts its calls.
\<close>

definition DEAD_BYTES_SLACK :: nat where
  "DEAD_BYTES_SLACK = 0x10000"

record MemoryUsage =
  usedBytes :: nat
  deadBytes :: nat

record ReferenceAttribute =
  cachedUniqueStoreMemoryUsage :: MemoryUsage
  compactWorstCalls :: nat
  generation :: nat
  statUpdates :: nat

definition compactWorst :: "ReferenceAttribute \<Rightarrow> ReferenceAttribute" where
  "compactWorst a = a\<lparr>compactWorstCalls := Suc (compactWorstCalls a)\<rparr>"

definition considerCompact ::
  "(nat \<Rightarrow> real) \<Rightarrow> (real \<Rightarrow> real \<Rightarrow> real) \<Rightarrow> real \<Rightarrow> ReferenceAttribute
     \<Rightarrow> bool \<times> ReferenceAttribute" where
  "considerCompact to_double dmul maxDeadBytesRatio a =
     (let used = usedBytes (cachedUniqueStoreMemoryUsage a);
          dead = deadBytes (cachedUniqueStoreMemoryUsage a);
          compactMemory = (dead \<ge> DEAD_BYTES_SLACK \<and>
                           dmul (to_double used) maxDeadBytesRatio < to_double dead)
      in if compactMemory then (True, compactWorst a) else (False, a))"

definition incGeneration :: "ReferenceAttribute \<Rightarrow> ReferenceAttribute" where
  "incGeneration a = a\<lparr>generation := Suc (generation a)\<rparr>"

definition updateStat :: "ReferenceAttribute \<Rightarrow> ReferenceAttribute" where
  "updateStat a = a\<lparr>statUpdates := Suc (statUpdates a)\<rparr>"

definition onCommit ::
  "(nat \<Rightarrow> real) \<Rightarrow> (real \<Rightarrow> real \<Rightarrow> real) \<Rightarrow> real \<Rightarrow> ReferenceAttribute
     \<Rightarrow> ReferenceAttribute" where
  "onCommit to_double dmul maxDeadBytesRatio a =
     (let a1 = incGeneration a;
          (compacted, a2) = considerCompact to_double dmul maxDeadBytesRatio a1
      in if compacted then updateStat (incGeneration a2) else a2)"

definition attr_with_usage :: "nat \<Rightarrow> nat \<Rightarrow> ReferenceAttribute" where
  "attr_with_usage used dead =
     \<lparr>cachedUniqueStoreMemoryUsage = \<lparr>usedBytes = used, deadBytes = dead\<rparr>,
      compactWorstCalls = 0, generation = 0, statUpdates = 0\<rparr>"

section \<open>Field path updates\<close>

text \<open>
  \<open>FieldPathUpdate::applyTo\<close>. The document type's \<open>buildFieldPath\<close>, the selection
  parser, the evaluation of a selection on a document (\<open>whereClause->contains(doc)\<close>, a
  list of pairs of variable bindings and a result) and \<open>doc.iterateNested(path, handler)\<close>
  live in other files; they are parameters. Building the path and parsing the selection
  can throw, so they return a sum. \<open>iterateNested\<close> is given the path and the variables
  the handler holds at that moment, and returns the document it leaves. The handler starts
  with the variables \<open>vars0\<close>; \<open>handler->setVariables\<close> replaces them.
\<close>

datatype select_Result = Result_True | Result_False | Result_Invalid

record FieldPathUpdate =
  originalFieldPath :: string
  originalWhereClause :: string

fun iterate_results ::
  "('p \<Rightarrow> 'v \<Rightarrow> 'd \<Rightarrow> 'd) \<Rightarrow> 'p \<Rightarrow> ('v \<times> select_Result) list \<Rightarrow> 'd \<Rightarrow> 'd" where
  "iterate_results iterateNested path [] doc = doc"
| "iterate_results iterateNested path ((vars, r) # results) doc =
     (if r = Result_True
      then iterate_results iterateNested path results (iterateNested path vars doc)
      else iterate_results iterateNested path results doc)"

definition applyTo ::
  "(string \<Rightarrow> 'e + 'p) \<Rightarrow> (string \<Rightarrow> 'e + 'w) \<Rightarrow> ('w \<Rightarrow> 'd \<Rightarrow> ('v \<times> select_Result) list)
     \<Rightarrow> ('p \<Rightarrow> 'v \<Rightarrow> 'd \<Rightarrow> 'd) \<Rightarrow> 'v \<Rightarrow> FieldPathUpdate \<Rightarrow> 'd \<Rightarrow> 'e + 'd" where
  "applyTo buildFieldPath parseDocumentSelection contains iterateNested vars0 upd doc =
     (case buildFieldPath (originalFieldPath upd) of
        Inl e \<Rightarrow> Inl e
      | Inr path \<Rightarrow>
          if originalWhereClause upd = [] then Inr (iterateNested path vars0 doc)
          else (case parseDocumentSelection (originalWhereClause upd) of
                  Inl e \<Rightarrow> Inl e
                | Inr whereClause \<Rightarrow>
                    Inr (iterate_results iterateNested path (contains whereClause doc) doc)))"

text \<open>
  A document that logs every iteration over it (the path and the variables bound), for
  running \<open>applyTo\<close> on concrete inputs.
\<close>

definition log_iteration ::
  "string \<Rightarrow> string \<Rightarrow> (string \<times> string) list \<Rightarrow> (string \<times> string) list" where
  "log_iteration path vars doc = doc @ [(path, vars)]"

definition three_bindings ::
  "unit \<Rightarrow> (string \<times> string) list \<Rightarrow> (string \<times> select_Result) list" where
  "three_bindings w doc =
     [(''x=1'', Result_True), (''x=2'', Result_False), (''x=3'', Result_True)]"

definition no_true_binding ::
  "unit \<Rightarrow> (string \<times> string) list \<Rightarrow> (string \<times> select_Result) list" where
  "no_true_binding w doc = [(''x=1'', Result_False), (''x=2'', Result_Invalid)]"

definition path_of_string :: "string \<Rightarrow> unit + string" where
  "path_of_string s = Inr s"

definition parse_any :: "string \<Rightarrow> unit + unit" where
  "parse_any s = Inr ()"

definition update_of :: "string \<Rightarrow> FieldPathUpdate" where
  "update_of wc = \<lparr>originalFieldPath = ''f{$x}'', originalWhereClause = wc\<rparr>"

section \<open>Document summaries: DynamicDocsumWriter\<close>

text \<open>
  The result configuration, the field writers and the document-summary store. A
  \<open>ResConfigEntry\<close> is one field of a result class; a \<open>ResultClass\<close> has its entries
  and the \<open>DynamicInfo\<close> counters that \<open>Override\<close> maintains. Pointers that can be
  \<open>NULL\<close> are options. Classes are compared by address in the source
  (\<open>rci.inputClass == rci.outputClass\<close>); the model gives each class an id and compares
  the ids.
\<close>

datatype ResType =
  RES_INT | RES_SHORT | RES_BYTE | RES_FLOAT | RES_DOUBLE | RES_INT64 | RES_STRING
  | RES_DATA | RES_LONG_STRING | RES_LONG_DATA | RES_XMLSTRING | RES_JSONSTRING
  | RES_TENSOR | RES_FEATUREDATA

datatype slime_value =
  SLong int | SDouble real | SString string | SData string | SDecoded string

datatype docsum = Nix | Object "(string \<times> slime_value) list"

record ResConfigEntry =
  rc_type :: ResType
  bindname :: string
  enumValue :: nat

record DynamicInfo =
  overrideCnt :: nat
  generateCnt :: nat

record ResultClass =
  classId :: nat
  entries :: "ResConfigEntry list"
  dynamicInfo :: DynamicInfo

record ResEntry =
  intval :: int
  doubleval :: real
  int64val :: int
  resolved_field :: string

text \<open>
  Modelled from the spec: the accessors of \<open>ResultClass\<close> and \<open>GeneralResult\<close>
  (resultclass.h, general_result.h) are not among the sources. \<open>GetEntry\<close> returns
  \<open>NULL\<close> for an index out of range, \<open>GetIndexFromEnumValue\<close> the index of the
  field with that enum value, or -1.
\<close>

definition GetNumEntries :: "ResultClass \<Rightarrow> nat" where
  "GetNumEntries c = length (entries c)"

definition GetEntry :: "'a list \<Rightarrow> int \<Rightarrow> 'a option" where
  "GetEntry xs i = (if 0 \<le> i \<and> i < int (length xs) then Some (xs ! nat i) else None)"

fun index_of_enum :: "ResConfigEntry list \<Rightarrow> nat \<Rightarrow> int \<Rightarrow> int" where
  "index_of_enum [] ev i = -1"
| "index_of_enum (e # es) ev i = (if enumValue e = ev then i else index_of_enum es ev (i + 1))"

definition GetIndexFromEnumValue :: "ResultClass \<Rightarrow> nat \<Rightarrow> int" where
  "GetIndexFromEnumValue c ev = index_of_enum (entries c) ev 0"

text \<open>
  A field writer (\<open>IDocsumFieldWriter\<close>): whether it generates its value, whether the
  document has the default value, and what \<open>insertField\<close> inserts (nothing, or one
  value), given the document id, the unpacked stored summary (or \<open>NULL\<close>) and the
  field's type. A writer is not handed the summary store.
\<close>

record FieldWriter =
  IsGenerated :: bool
  isDefaultValue :: "nat \<Rightarrow> bool"
  insertField :: "nat \<Rightarrow> ResEntry list option \<Rightarrow> ResType \<Rightarrow> slime_value option"

text \<open>
  The summary store: the class id of the stored summaries (\<open>getSummaryClassId\<close>) and
  the blobs, with a log of the document ids whose stored summary was read
  (\<open>getMappedDocsum\<close>).
\<close>

record DocsumStore =
  getSummaryClassId :: nat
  blobs :: "nat \<Rightarrow> string"
  reads :: "nat list"

definition getMappedDocsum :: "nat \<Rightarrow> DocsumStore \<Rightarrow> string \<times> DocsumStore" where
  "getMappedDocsum docid st = (blobs st docid, st\<lparr>reads := reads st @ [docid]\<rparr>)"

record ResolveClassInfo =
  mustSkip :: bool
  allGenerated :: bool
  outputClassId :: nat
  outputClass :: "ResultClass option"
  outputClassInfo :: "DynamicInfo option"
  inputClass :: "ResultClass option"

datatype docsum_error = NullPointer | AssertionFailed

text \<open>
  Modelled from the spec: \<open>ResultConfig\<close> (resultconfig.h) is not among the sources.
  It holds the result classes, which \<open>begin()\<close> to \<open>end()\<close> iterate in order;
  \<open>LookupResultClass\<close> finds the class with an id, or \<open>NULL\<close>.
  \<open>LookupResultClassId\<close> (from a class name and a default id to an id), \<open>NoClassID\<close>
  and the field name enum (\<open>GetFieldNameEnum().Lookup\<close> from a field name to its enum
  value, \<open>GetFieldNameEnum().GetNumEntries()\<close>) are parameters.
\<close>

record ResultConfig =
  NoClassID :: nat
  LookupResultClassId :: "string \<Rightarrow> nat \<Rightarrow> nat"
  classes :: "ResultClass list"
  FieldNameEnum_Lookup :: "string \<Rightarrow> nat"
  FieldNameEnum_GetNumEntries :: nat

definition LookupResultClass :: "ResultConfig \<Rightarrow> nat \<Rightarrow> ResultClass option" where
  "LookupResultClass config cid = find (\<lambda>c. classId c = cid) (classes config)"

text \<open>
  The writer. \<open>_classInfoTable\<close> holds the \<open>DynamicInfo\<close> of each class and each
  class points to its element: here the counters are the \<open>dynamicInfo\<close> of the class.
  \<open>_overrideTable\<close> is an array of \<open>_numEnumValues\<close> writers, \<open>NULL\<close> where no
  writer is registered. The constructor zeroes the counters of every class and clears
  the table.
\<close>

record DynamicDocsumWriter =
  resultConfig :: ResultConfig
  defaultOutputClass :: nat
  numEnumValues :: nat
  overrideTable :: "nat \<Rightarrow> FieldWriter option"

definition DynamicDocsumWriter_new :: "ResultConfig \<Rightarrow> DynamicDocsumWriter" where
  "DynamicDocsumWriter_new config =
     \<lparr>resultConfig =
        config\<lparr>classes :=
          map (\<lambda>c. c\<lparr>dynamicInfo := \<lparr>overrideCnt = 0, generateCnt = 0\<rparr>\<rparr>) (classes config)\<rparr>,
      defaultOutputClass = NoClassID config,
      numEnumValues = FieldNameEnum_GetNumEntries config,
      overrideTable = (\<lambda>i. None)\<rparr>"

definition SetDefaultOutputClass ::
  "nat \<Rightarrow> DynamicDocsumWriter \<Rightarrow> bool \<times> DynamicDocsumWriter" where
  "SetDefaultOutputClass classID dw =
     (let resClass = LookupResultClass (resultConfig dw) classID
      in if resClass = None \<or> defaultOutputClass dw \<noteq> NoClassID (resultConfig dw)
         then (False, dw)
         else (True, dw\<lparr>defaultOutputClass := classID\<rparr>))"

text \<open>
  \<open>Override\<close> registers a writer for a field name. A refused writer is deleted. The
  counters are \<open>uint32_t\<close>; each enum value is registered at most once, so they stay
  below the number of enum values and do not wrap. \<open>writer->setIndex\<close> sets a field of
  the writer that nothing here reads.
\<close>

definition Override ::
  "string \<Rightarrow> FieldWriter \<Rightarrow> DynamicDocsumWriter \<Rightarrow> bool \<times> DynamicDocsumWriter" where
  "Override fieldName writer dw =
     (let fieldEnumValue = FieldNameEnum_Lookup (resultConfig dw) fieldName
      in if fieldEnumValue \<ge> numEnumValues dw \<or> overrideTable dw fieldEnumValue \<noteq> None
         then (False, dw)
         else
           (True,
            dw\<lparr>overrideTable := (overrideTable dw)(fieldEnumValue \<mapsto> writer),
               resultConfig :=
                 (resultConfig dw)\<lparr>classes :=
                    map (\<lambda>c. if GetIndexFromEnumValue c fieldEnumValue \<ge> 0
                              then let info = dynamicInfo c;
                                       info = info\<lparr>overrideCnt := overrideCnt info + 1\<rparr>;
                                       info = (if IsGenerated writer
                                               then info\<lparr>generateCnt := generateCnt info + 1\<rparr>
                                               else info)
                                   in c\<lparr>dynamicInfo := info\<rparr>
                              else c)
                      (classes (resultConfig dw))\<rparr>\<rparr>))"

text \<open>
  The set-up of a writer: the constructor, followed by calls of \<open>Override\<close> and
  \<open>SetDefaultOutputClass\<close> in any order.
\<close>

datatype setup_call = CallOverride string FieldWriter | CallSetDefaultOutputClass nat

fun setup_step :: "setup_call \<Rightarrow> DynamicDocsumWriter \<Rightarrow> DynamicDocsumWriter" where
  "setup_step (CallOverride fieldName writer) dw = snd (Override fieldName writer dw)"
| "setup_step (CallSetDefaultOutputClass classID) dw = snd (SetDefaultOutputClass classID dw)"

fun configure :: "setup_call list \<Rightarrow> DynamicDocsumWriter \<Rightarrow> DynamicDocsumWriter" where
  "configure [] dw = dw"
| "configure (c # calls) dw = configure calls (setup_step c dw)"

definition resolveOutputClass ::
  "DynamicDocsumWriter \<Rightarrow> string \<Rightarrow> docsum_error + ResolveClassInfo" where
  "resolveOutputClass dw summaryClass =
     (let result = \<lparr>mustSkip = False, allGenerated = False, outputClassId = 0,
                     outputClass = None, outputClassInfo = None, inputClass = None\<rparr>;
          cid = defaultOutputClass dw;
          cid = LookupResultClassId (resultConfig dw) summaryClass cid
      in if cid \<noteq> NoClassID (resultConfig dw) then
           (case LookupResultClass (resultConfig dw) cid of
              None \<Rightarrow> Inr (result\<lparr>mustSkip := True, outputClassId := cid\<rparr>)
            | Some oC \<Rightarrow>
                let rcInfo = dynamicInfo oC
                in if generateCnt rcInfo = GetNumEntries oC then
                     if overrideCnt rcInfo = generateCnt rcInfo
                     then Inr (result\<lparr>allGenerated := True, outputClassId := cid,
                                 outputClass := Some oC, outputClassInfo := Some rcInfo\<rparr>)
                     else Inl AssertionFailed
                   else Inr (result\<lparr>outputClassId := cid, outputClass := Some oC,
                               outputClassInfo := Some rcInfo\<rparr>))
         else Inr (result\<lparr>outputClassId := cid\<rparr>))"

definition resolveInputClass ::
  "DynamicDocsumWriter \<Rightarrow> ResolveClassInfo \<Rightarrow> nat \<Rightarrow> docsum_error + ResolveClassInfo" where
  "resolveInputClass dw rci cid =
     (case LookupResultClass (resultConfig dw) cid of
        None \<Rightarrow> Inr (rci\<lparr>inputClass := None, mustSkip := True\<rparr>)
      | Some inC \<Rightarrow>
          if outputClass rci = None then
            if outputClassId rci = NoClassID (resultConfig dw)
            then Inr (rci\<lparr>inputClass := Some inC, outputClassId := cid,
                        outputClass := Some inC, outputClassInfo := Some (dynamicInfo inC)\<rparr>)
            else Inl AssertionFailed
          else Inr (rci\<lparr>inputClass := Some inC\<rparr>))"

definition resolveClassInfo ::
  "DynamicDocsumWriter \<Rightarrow> string \<Rightarrow> nat \<Rightarrow> docsum_error + ResolveClassInfo" where
  "resolveClassInfo dw outputClassName inputClassId =
     (case resolveOutputClass dw outputClassName of
        Inl e \<Rightarrow> Inl e
      | Inr rci \<Rightarrow>
          if \<not> mustSkip rci \<and> \<not> allGenerated rci
          then resolveInputClass dw rci inputClassId
          else Inr rci)"

text \<open>
  \<open>convertEntry\<close> copies one unpacked field. \<open>decode\<close> stands for
  \<open>BinaryFormat::decode_into\<close>.
\<close>

definition convertEntry ::
  "(string \<Rightarrow> string) \<Rightarrow> ResConfigEntry option \<Rightarrow> ResEntry option
     \<Rightarrow> docsum_error + slime_value option" where
  "convertEntry decode resCfg entry =
     (case (resCfg, entry) of
        (Some cfg, Some e) \<Rightarrow>
          (case rc_type cfg of
             RES_INT \<Rightarrow> Inr (Some (SLong (intval e)))
           | RES_SHORT \<Rightarrow> Inr (Some (SLong (intval e)))
           | RES_BYTE \<Rightarrow> Inr (Some (SLong (intval e)))
           | RES_FLOAT \<Rightarrow> Inr (Some (SDouble (doubleval e)))
           | RES_DOUBLE \<Rightarrow> Inr (Some (SDouble (doubleval e)))
           | RES_INT64 \<Rightarrow> Inr (Some (SLong (int64val e)))
           | RES_STRING \<Rightarrow> Inr (Some (SString (resolved_field e)))
           | RES_LONG_STRING \<Rightarrow> Inr (Some (SString (resolved_field e)))
           | RES_FEATUREDATA \<Rightarrow> Inr (Some (SString (resolved_field e)))
           | RES_XMLSTRING \<Rightarrow> Inr (Some (SString (resolved_field e)))
           | RES_DATA \<Rightarrow> Inr (Some (SData (resolved_field e)))
           | RES_TENSOR \<Rightarrow> Inr (Some (SData (resolved_field e)))
           | RES_LONG_DATA \<Rightarrow> Inr (Some (SData (resolved_field e)))
           | RES_JSONSTRING \<Rightarrow>
               if length (resolved_field e) \<noteq> 0
               then Inr (Some (SDecoded (decode (resolved_field e))))
               else Inr None)
      | _ \<Rightarrow> Inl AssertionFailed)"

definition add_field ::
  "string \<Rightarrow> slime_value option \<Rightarrow> (string \<times> slime_value) list
     \<Rightarrow> (string \<times> slime_value) list" where
  "add_field name v flds = (case v of None \<Rightarrow> flds | Some x \<Rightarrow> flds @ [(name, x)])"

text \<open>
  The loop of the \<open>allGenerated\<close> branch, over the entries of the output class. The
  writer of a field is called without a check for \<open>NULL\<close>.
\<close>

fun insert_generated ::
  "DynamicDocsumWriter \<Rightarrow> nat \<Rightarrow> ResConfigEntry list
     \<Rightarrow> (string \<times> slime_value) list \<Rightarrow> docsum_error + (string \<times> slime_value) list" where
  "insert_generated dw docid [] flds = Inr flds"
| "insert_generated dw docid (resCfg # rest) flds =
     (case overrideTable dw (enumValue resCfg) of
        None \<Rightarrow> Inl NullPointer
      | Some writer \<Rightarrow>
          if \<not> isDefaultValue writer docid
          then insert_generated dw docid rest
                 (add_field (bindname resCfg)
                    (insertField writer docid None (rc_type resCfg)) flds)
          else insert_generated dw docid rest flds)"

text \<open>
  The loop of the other branch: \<open>i\<close> is the index of the entry at the head of the list
  in the output class, \<open>gres\<close> the unpacked stored summary.
\<close>

fun insert_stored ::
  "DynamicDocsumWriter \<Rightarrow> (string \<Rightarrow> string) \<Rightarrow> nat \<Rightarrow> ResultClass \<Rightarrow> ResultClass
     \<Rightarrow> ResEntry list \<Rightarrow> int \<Rightarrow> ResConfigEntry list
     \<Rightarrow> (string \<times> slime_value) list \<Rightarrow> docsum_error + (string \<times> slime_value) list" where
  "insert_stored dw decode docid inC outC gres i [] flds = Inr flds"
| "insert_stored dw decode docid inC outC gres i (outCfg # rest) flds =
     (case overrideTable dw (enumValue outCfg) of
        Some writer \<Rightarrow>
          insert_stored dw decode docid inC outC gres (i + 1) rest
            (add_field (bindname outCfg)
               (insertField writer docid (Some gres) (rc_type outCfg)) flds)
      | None \<Rightarrow>
          if classId inC = classId outC then
            (case convertEntry decode (Some outCfg) (GetEntry gres i) of
               Inl e \<Rightarrow> Inl e
             | Inr v \<Rightarrow>
                 insert_stored dw decode docid inC outC gres (i + 1) rest
                   (add_field (bindname outCfg) v flds))
          else
            (let inIdx = GetIndexFromEnumValue inC (enumValue outCfg);
                 inCfg = GetEntry (entries inC) inIdx
             in case inCfg of
                  None \<Rightarrow>
                    insert_stored dw decode docid inC outC gres (i + 1) rest flds
                | Some c \<Rightarrow>
                    if rc_type c = rc_type outCfg then
                      (case convertEntry decode (Some outCfg) (GetEntry gres inIdx) of
                         Inl e \<Rightarrow> Inl e
                       | Inr v \<Rightarrow>
                           insert_stored dw decode docid inC outC gres (i + 1) rest
                             (add_field (bindname outCfg) v flds))
                    else
                      insert_stored dw decode docid inC outC gres (i + 1) rest
                        flds))"

text \<open>
  \<open>insertDocsum\<close> returns what it inserts at the top and the store it leaves.
  \<open>inplaceUnpack\<close> (of \<open>GeneralResult\<close>) is a parameter: from the input class and the
  stored blob it gives the entries, or fails.
\<close>

definition insertDocsum ::
  "DynamicDocsumWriter \<Rightarrow> (string \<Rightarrow> string)
     \<Rightarrow> (ResultClass option \<Rightarrow> string \<Rightarrow> ResEntry list option)
     \<Rightarrow> ResolveClassInfo \<Rightarrow> nat \<Rightarrow> DocsumStore \<Rightarrow> docsum_error + (docsum \<times> DocsumStore)" where
  "insertDocsum dw decode inplaceUnpack rci docid docinfos =
     (if allGenerated rci then
        (case outputClass rci of
           None \<Rightarrow> Inl NullPointer
         | Some outC \<Rightarrow>
             (case insert_generated dw docid (entries outC) [] of
                Inl e \<Rightarrow> Inl e
              | Inr flds \<Rightarrow> Inr (Object flds, docinfos)))
      else
        (let (value, docinfos') = getMappedDocsum docid docinfos
         in case inplaceUnpack (inputClass rci) value of
              None \<Rightarrow> Inr (Nix, docinfos')
            | Some gres \<Rightarrow>
                (case (outputClass rci, inputClass rci) of
                   (Some outC, Some inC) \<Rightarrow>
                     (case insert_stored dw decode docid inC outC gres 0
                             (entries outC) [] of
                        Inl e \<Rightarrow> Inl e
                      | Inr flds \<Rightarrow> Inr (Object flds, docinfos'))
                 | _ \<Rightarrow> Inl NullPointer)))"

text \<open>
  \<open>WriteDocsum\<close>, for the class name of the request (\<open>_args.getResultClassName()\<close>):
  it returns the docsum that it then serializes, and the store it leaves.
\<close>

definition WriteDocsum ::
  "DynamicDocsumWriter \<Rightarrow> (string \<Rightarrow> string)
     \<Rightarrow> (ResultClass option \<Rightarrow> string \<Rightarrow> ResEntry list option)
     \<Rightarrow> string \<Rightarrow> nat \<Rightarrow> DocsumStore \<Rightarrow> docsum_error + (docsum \<times> DocsumStore)" where
  "WriteDocsum dw decode inplaceUnpack resultClassName docid docinfos =
     (case resolveClassInfo dw resultClassName (getSummaryClassId docinfos) of
        Inl e \<Rightarrow> Inl e
      | Inr rci \<Rightarrow> insertDocsum dw decode inplaceUnpack rci docid docinfos)"

text \<open>
  The condition of the optimization in the words of the specification: every field of
  the class has a registered override writer that is generated.
\<close>

definition has_generated_writer :: "DynamicDocsumWriter \<Rightarrow> ResConfigEntry \<Rightarrow> bool" where
  "has_generated_writer dw e =
     (case overrideTable dw (enumValue e) of None \<Rightarrow> False | Some writer \<Rightarrow> IsGenerated writer)"

definition all_fields_generated :: "DynamicDocsumWriter \<Rightarrow> ResultClass \<Rightarrow> bool" where
  "all_fields_generated dw c = list_all (has_generated_writer dw) (entries c)"

text \<open>
  A configuration with one class, of id 7 and named \<open>default\<close>, with the two fields
  \<open>a\<close> and \<open>b\<close>; writers that generate a number from the document id (for a generated
  one) or copy nothing from the stored summary; a store of summaries of class 7.
\<close>

definition attr_writer :: "bool \<Rightarrow> int \<Rightarrow> FieldWriter" where
  "attr_writer gen v =
     \<lparr>IsGenerated = gen, isDefaultValue = (\<lambda>docid. docid = 0),
      insertField = (\<lambda>docid gres t. Some (SLong (v + int docid)))\<rparr>"

definition two_field_class :: ResultClass where
  "two_field_class =
     \<lparr>classId = 7,
      entries = [\<lparr>rc_type = RES_INT, bindname = ''a'', enumValue = 0\<rparr>,
                 \<lparr>rc_type = RES_INT, bindname = ''b'', enumValue = 1\<rparr>],
      dynamicInfo = \<lparr>overrideCnt = 0, generateCnt = 0\<rparr>\<rparr>"

definition two_field_config :: ResultConfig where
  "two_field_config =
     \<lparr>NoClassID = 1000000,
      LookupResultClassId = (\<lambda>name dflt. if name = ''default'' then 7 else dflt),
      classes = [two_field_class],
      FieldNameEnum_Lookup = (\<lambda>name. if name = ''a'' then 0 else if name = ''b'' then 1 else 2),
      FieldNameEnum_GetNumEntries = 2\<rparr>"

definition two_field_writer :: "bool \<Rightarrow> DynamicDocsumWriter" where
  "two_field_writer gen =
     configure [CallOverride ''a'' (attr_writer True 10), CallOverride ''b'' (attr_writer gen 20)]
       (DynamicDocsumWriter_new two_field_config)"

definition empty_store :: DocsumStore where
  "empty_store = \<lparr>getSummaryClassId = 7, blobs = (\<lambda>docid. ''blob''), reads = []\<rparr>"

definition unpack_none :: "ResultClass option \<Rightarrow> string \<Rightarrow> ResEntry list option" where
  "unpack_none c blob = None"

definition unpack_empty :: "ResultClass option \<Rightarrow> string \<Rightarrow> ResEntry list option" where
  "unpack_empty c blob = Some []"

text \<open>
  What the constructor establishes and \<open>Override\<close> keeps: the counters of a class count
  its fields that have a writer, and those that have a generated writer.
\<close>

definition has_writer :: "DynamicDocsumWriter \<Rightarrow> ResConfigEntry \<Rightarrow> bool" where
  "has_writer dw e = (overrideTable dw (enumValue e) \<noteq> None)"

definition counters_ok :: "DynamicDocsumWriter \<Rightarrow> ResultClass \<Rightarrow> bool" where
  "counters_ok dw c =
     (distinct (map enumValue (entries c)) \<and>
      generateCnt (dynamicInfo c) = length (filter (has_generated_writer dw) (entries c)) \<and>
      overrideCnt (dynamicInfo c) = length (filter (has_writer dw) (entries c)))"

text \<open>
  The class of that configuration after the two calls of \<open>Override\<close>, and what
  \<open>resolveClassInfo\<close> gives when the class name of the request is unknown and no default
  output class is set: the input class is the output class.
\<close>

definition overridden_class :: "bool \<Rightarrow> ResultClass" where
  "overridden_class gen =
     two_field_class\<lparr>dynamicInfo := \<lparr>overrideCnt = 2, generateCnt = (if gen then 2 else 1)\<rparr>\<rparr>"

definition fallback_rci :: ResolveClassInfo where
  "fallback_rci =
     \<lparr>mustSkip = False, allGenerated = False, outputClassId = 7,
      outputClass = Some (overridden_class True),
      outputClassInfo = Some (dynamicInfo (overridden_class True)),
      inputClass = Some (overridden_class True)\<rparr>"

section \<open>vespa-get: CommandLineOptions\<close>

text \<open>
  \<open>CommandLineOptions.parseCommandLineArguments\<close>. The command line is parsed by
  Apache Commons CLI (\<open>DefaultParser.parse\<close>), which is not part of the sources: the
  parser is a parameter that gives a \<open>CommandLine\<close> or fails with a
  \<open>ParseException\<close> (its message). A \<open>CommandLine\<close> answers \<open>hasOption\<close>,
  \<open>getOptionValue\<close> (\<open>None\<close> when the option is absent; the value given, which may
  be the empty string, when it is present), \<open>getParsedOptionValue\<close> (which can fail
  with a \<open>ParseException\<close>) and \<open>getArgs\<close>. The values of
  \<open>DocumentProtocol.Priority\<close> are a parameter too. Standard input is a list of
  lines still to be read; \<open>new Scanner(stdIn)\<close> reads nothing, so the document ids
  are either the positional arguments or the scanner over the untouched input.
  A local variable of the source named like a field of \<open>ClientParameters\<close>
  carries the suffix \<open>V\<close> here.
\<close>

datatype Number = Number (intValue: int) (doubleValue: real)

record CommandLine =
  hasOption :: "string \<Rightarrow> bool"
  optionValue :: "string \<Rightarrow> string option"
  getParsedOptionValue :: "string \<Rightarrow> string + Number option"
  getArgs :: "string list"

definition getOptionValue :: "CommandLine \<Rightarrow> string \<Rightarrow> string \<Rightarrow> string" where
  "getOptionValue cl opt defaultValue =
     (case optionValue cl opt of None \<Rightarrow> defaultValue | Some v \<Rightarrow> v)"

datatype IllegalArgumentException =
  ParseFailed string
  | PrintIdsAndHeadersOnly
  | FieldSetWithIdsOrHeaders
  | ClusterAndRoute
  | InvalidTracelevel int
  | InvalidPriority int

datatype DocumentIds = ScannerOnStdIn | ArgumentIds "string list"

record ClientParameters =
  documentIds :: DocumentIds
  configId :: string
  fieldSet :: string
  help_opt :: bool
  printIdsOnly :: bool
  loadTypeName :: string
  noRetry :: bool
  cluster :: string
  route :: string
  showDocSize :: bool
  traceLevel :: int
  priority :: int
  timeout :: real
  jsonOutput :: bool

definition getDocumentIds :: "CommandLine \<Rightarrow> string list \<Rightarrow> DocumentIds \<times> string list" where
  "getDocumentIds cl stdIn =
     (let ids = getArgs cl
      in if ids = [] \<or> (length ids = 1 \<and> ids ! 0 = []) then (ScannerOnStdIn, stdIn)
         else (ArgumentIds ids, stdIn))"

definition getTimeout :: "CommandLine \<Rightarrow> string + real" where
  "getTimeout cl =
     (case getParsedOptionValue cl ''timeout'' of
        Inl pe \<Rightarrow> Inl pe
      | Inr None \<Rightarrow> Inr 0
      | Inr (Some n) \<Rightarrow> Inr (doubleValue n))"

definition getTrace :: "CommandLine \<Rightarrow> string + int" where
  "getTrace cl =
     (case getParsedOptionValue cl ''trace'' of
        Inl pe \<Rightarrow> Inl pe
      | Inr None \<Rightarrow> Inr 0
      | Inr (Some n) \<Rightarrow> Inr (intValue n))"

definition parsePriority :: "int list \<Rightarrow> int \<Rightarrow> IllegalArgumentException + int" where
  "parsePriority priorityValues n =
     (if n \<in> set priorityValues then Inr n else Inl (InvalidPriority n))"

definition getPriority ::
  "int list \<Rightarrow> int \<Rightarrow> CommandLine \<Rightarrow> IllegalArgumentException + int" where
  "getPriority priorityValues NORMAL_2 cl =
     (case getParsedOptionValue cl ''priority'' of
        Inl pe \<Rightarrow> Inl (ParseFailed pe)
      | Inr None \<Rightarrow> parsePriority priorityValues NORMAL_2
      | Inr (Some n) \<Rightarrow> parsePriority priorityValues (intValue n))"

definition parseCommandLineArguments ::
  "(string list \<Rightarrow> string + CommandLine) \<Rightarrow> int list \<Rightarrow> int \<Rightarrow> string list \<Rightarrow> string list
     \<Rightarrow> (IllegalArgumentException + ClientParameters) \<times> string list" where
  "parseCommandLineArguments parse priorityValues NORMAL_2 args stdIn =
     (case parse args of
        Inl pe \<Rightarrow> (Inl (ParseFailed pe), stdIn)
      | Inr cl \<Rightarrow>
          let printIdsOnlyV = hasOption cl ''printids'';
              headersOnly = hasOption cl ''headersonly'';
              fieldSetV = getOptionValue cl ''fieldset'' [];
              clusterV = getOptionValue cl ''cluster'' [];
              routeV = getOptionValue cl ''route'' [];
              configIdV = getOptionValue cl ''configid'' [];
              help_optV = hasOption cl ''help'';
              loadtype = getOptionValue cl ''loadtype'' [];
              noRetryV = hasOption cl ''noretry'';
              showDocSizeV = hasOption cl ''showdocsize'';
              jsonOutputV = hasOption cl ''jsonoutput''
          in (case getTrace cl of
               Inl pe \<Rightarrow> (Inl (ParseFailed pe), stdIn)
             | Inr trace \<Rightarrow>
                 (case getPriority priorityValues NORMAL_2 cl of
                    Inl e \<Rightarrow> (Inl e, stdIn)
                  | Inr priorityV \<Rightarrow>
                      (case getTimeout cl of
                         Inl pe \<Rightarrow> (Inl (ParseFailed pe), stdIn)
                       | Inr timeoutV \<Rightarrow>
                           let (documentIdsV, stdIn') = getDocumentIds cl stdIn
                           in if printIdsOnlyV \<and> headersOnly
                              then (Inl PrintIdsAndHeadersOnly, stdIn')
                              else if (printIdsOnlyV \<or> headersOnly) \<and> fieldSetV \<noteq> []
                              then (Inl FieldSetWithIdsOrHeaders, stdIn')
                              else
                                let fieldSetV = (if printIdsOnlyV then ''[id]''
                                                else if headersOnly then ''[header]''
                                                else if fieldSetV = [] then ''[all]''
                                                else fieldSetV)
                                in if clusterV \<noteq> [] \<and> routeV \<noteq> []
                                   then (Inl ClusterAndRoute, stdIn')
                                   else
                                     let routeV = (if routeV = [] \<and> clusterV = []
                                                  then ''default'' else routeV)
                                     in if trace < 0 \<or> trace > 9
                                        then (Inl (InvalidTracelevel trace), stdIn')
                                        else
                                          let configIdV = (if configIdV = [] then ''client''
                                                          else configIdV)
                                          in (Inr \<lparr>documentIds = documentIdsV,
                                                    configId = configIdV,
                                                    fieldSet = fieldSetV,
                                                    help_opt = help_optV,
                                                    printIdsOnly = printIdsOnlyV,
                                                    loadTypeName = loadtype,
                                                    noRetry = noRetryV,
                                                    cluster = clusterV,
                                                    route = routeV,
                                                    showDocSize = showDocSizeV,
                                                    traceLevel = trace,
                                                    priority = priorityV,
                                                    timeout = timeoutV,
                                                    jsonOutput = jsonOutputV\<rparr>, stdIn')))))"

text \<open>
  Command lines for running the parser on concrete inputs: the flags present, the
  option values given, and the positional arguments; no numeric option is given.
\<close>

definition command_line ::
  "string list \<Rightarrow> (string \<times> string) list \<Rightarrow> string list \<Rightarrow> CommandLine" where
  "command_line flags vals positional =
     \<lparr>hasOption = (\<lambda>opt. opt \<in> set flags \<or> opt \<in> set (map fst vals)),
      optionValue = map_of vals,
      getParsedOptionValue = (\<lambda>opt. Inr None),
      getArgs = positional\<rparr>"

definition priority_values :: "int list" where
  "priority_values = [0, 1, 2, 3, 4, 5, 6, 7, 8, 9, 10, 11, 12, 13, 14, 15]"

section \<open>Node provisioning: ResourceCapacity\<close>

text \<open>
  \<open>ResourceCapacity\<close> holds three \<open>double\<close>s. A double is modelled by the real
  number it denotes (no NaN, no infinity). Sums, differences, comparisons,
  \<open>Math.floor\<close> and \<open>Math.min\<close> of doubles are those of the reals wherever they
  are exact; the division, which rounds, is the parameter \<open>ddiv\<close>. The cast
  \<open>(int)\<close> of a double saturates at the bounds of \<open>int\<close>.
\<close>

record Flavor =
  minMainMemoryAvailableGb :: real
  minCpuCores :: real
  minDiskAvailableGb :: real

record ResourceCapacity =
  memory :: real
  cpu :: real
  disk :: real

definition hasCapacityFor :: "ResourceCapacity \<Rightarrow> Flavor \<Rightarrow> bool" where
  "hasCapacityFor c flavor =
     (memory c \<ge> minMainMemoryAvailableGb flavor \<and>
      cpu c \<ge> minCpuCores flavor \<and>
      disk c \<ge> minDiskAvailableGb flavor)"

definition double_to_int :: "real \<Rightarrow> int" where
  "double_to_int x =
     (if x \<ge> 2147483647 then 2147483647
      else if x \<le> - 2147483648 then - 2147483648
      else if x \<ge> 0 then \<lfloor>x\<rfloor> else \<lceil>x\<rceil>)"

definition freeCapacityInFlavorEquivalence ::
  "(real \<Rightarrow> real \<Rightarrow> real) \<Rightarrow> ResourceCapacity \<Rightarrow> Flavor \<Rightarrow> int" where
  "freeCapacityInFlavorEquivalence ddiv c flavor =
     (if \<not> hasCapacityFor c flavor then 0
      else
        let memoryFactor = of_int \<lfloor>ddiv (memory c) (minMainMemoryAvailableGb flavor)\<rfloor>;
            cpuFactor = of_int \<lfloor>ddiv (cpu c) (minCpuCores flavor)\<rfloor>;
            diskFactor = of_int \<lfloor>ddiv (disk c) (minDiskAvailableGb flavor)\<rfloor>;
            aggregateFactor = min memoryFactor cpuFactor;
            aggregateFactor = min aggregateFactor diskFactor
        in double_to_int aggregateFactor)"

definition subtract_capacity :: "ResourceCapacity \<Rightarrow> ResourceCapacity \<Rightarrow> ResourceCapacity" where
  "subtract_capacity a b =
     \<lparr>memory = memory a - memory b, cpu = cpu a - cpu b, disk = disk a - disk b\<rparr>"

definition capacity_of :: "Flavor \<Rightarrow> ResourceCapacity" where
  "capacity_of flavor =
     \<lparr>memory = minMainMemoryAvailableGb flavor, cpu = minCpuCores flavor,
      disk = minDiskAvailableGb flavor\<rparr>"

definition flavor_of :: "real \<Rightarrow> real \<Rightarrow> real \<Rightarrow> Flavor" where
  "flavor_of m c d =
     \<lparr>minMainMemoryAvailableGb = m, minCpuCores = c, minDiskAvailableGb = d\<rparr>"

section \<open>Document store: WriteableFileChunk\<close>

subsection \<open>Ordered maps\<close>

text \<open>
  \<open>std::map<uint32_t, V>\<close> (the types \<open>ChunkMap\<close> and \<open>ProcessedChunkMap\<close>) is
  a list of pairs kept in ascending key order without duplicate keys: \<open>begin()\<close> is the
  head. \<open>map_put\<close> is \<open>m[k] = v\<close>, \<open>map_find\<close> is \<open>m.find(k)\<close>.
\<close>

fun map_put :: "nat \<Rightarrow> 'v \<Rightarrow> (nat \<times> 'v) list \<Rightarrow> (nat \<times> 'v) list" where
  "map_put k v [] = [(k, v)]"
| "map_put k v ((k', v') # m) =
     (if k < k' then (k, v) # (k', v') # m
      else if k = k' then (k, v) # m
      else (k', v') # map_put k v m)"

fun map_find :: "(nat \<times> 'v) list \<Rightarrow> nat \<Rightarrow> 'v option" where
  "map_find [] k = None"
| "map_find ((k', v') # m) k = (if k = k' then Some v' else map_find m k)"

subsection \<open>Appending to the active chunk\<close>

text \<open>
  A \<open>Chunk\<close> is an in-memory batch of (lid, serialized bytes) pairs with an id.
  Modelled from the spec: the class \<open>Chunk\<close> (chunk.h) is not among the sources;
  \<open>empty\<close> holds of a chunk without entries and \<open>Chunk::append\<close> adds one entry and
  returns its size. What decides whether bytes fit (\<open>Chunk::hasRoom\<close>), the serialized
  size of a chunk (\<open>Chunk::size\<close>), \<open>adjustSize\<close>, \<open>LidInfo::getChunkIdLimit()\<close>
  and \<open>setSerialNum\<close> (from the current serial number and its argument to the new
  serial number) are parameters, collected in \<open>ChunkOps\<close>.
\<close>

record Chunk =
  chunk_id :: nat
  lids :: "(nat \<times> string) list"

definition new_Chunk :: "nat \<Rightarrow> Chunk" where
  "new_Chunk i = \<lparr>chunk_id = i, lids = []\<rparr>"

definition empty_chunk :: "Chunk \<Rightarrow> bool" where
  "empty_chunk c = (lids c = [])"

definition Chunk_append :: "nat \<Rightarrow> string \<Rightarrow> Chunk \<Rightarrow> nat \<times> Chunk" where
  "Chunk_append lid buffer c = (length buffer, c\<lparr>lids := lids c @ [(lid, buffer)]\<rparr>)"

record ChunkOps =
  hasRoom :: "Chunk \<Rightarrow> nat \<Rightarrow> bool"
  chunk_size :: "Chunk \<Rightarrow> nat"
  adjustSize :: "nat \<Rightarrow> nat"
  getChunkIdLimit :: nat
  setSerialNum :: "nat \<Rightarrow> nat \<Rightarrow> nat"

text \<open>
  The fields of \<open>WriteableFileChunk\<close> that \<open>append\<close> and \<open>flush\<close> touch.
  \<open>executorTasks\<close> are the \<open>internalFlush(chunkId, serialNum)\<close> tasks handed to the
  executor, in order. Sizes are \<open>size_t\<close> and \<open>uint64_t\<close>: the disk footprint is
  a 64-bit word, since the source subtracts from it. Chunk ids are below
  \<open>getChunkIdLimit()\<close>, so the \<open>int32_t\<close> that carries one is its value; -1 is "no
  chunk".
\<close>

record WriteableFileChunk =
  frozen :: bool
  serialNum :: nat
  fileId :: nat
  active :: Chunk
  chunkMap :: "(nat \<times> Chunk) list"
  nextChunkId :: nat
  addedBytes :: nat
  diskFootprint :: "64 word"
  executorTasks :: "(nat \<times> nat) list"

datatype wfc_error =
  AssertNotFrozen | AssertSerialNum | AssertChunkIdLimit | Suspended

text \<open>
  \<open>flushLastIfNonEmpty\<close> waits on the monitor while more than 1000 chunks are in
  flight; a call that has to wait is the outcome \<open>Suspended\<close>.
\<close>

definition flushLastIfNonEmpty ::
  "ChunkOps \<Rightarrow> bool \<Rightarrow> WriteableFileChunk \<Rightarrow> wfc_error + (int \<times> WriteableFileChunk)" where
  "flushLastIfNonEmpty ops force s =
     (if length (chunkMap s) > 1000 then Inl Suspended
      else if force \<or> \<not> empty_chunk (active s) then
        let chunkId = chunk_id (active s);
            s1 = s\<lparr>chunkMap := map_put chunkId (active s) (chunkMap s)\<rparr>
        in if nextChunkId s1 < getChunkIdLimit ops
           then Inr (int chunkId,
                     s1\<lparr>active := new_Chunk (nextChunkId s1),
                        nextChunkId := nextChunkId s1 + 1\<rparr>)
           else Inl AssertChunkIdLimit
      else Inr (- 1, s))"

text \<open>
  \<open>flush\<close>. With \<open>block\<close> the caller waits until the chunk has left
  \<open>chunkMap\<close>, which only the background writer brings about: that wait is
  \<open>Suspended\<close> as well.
\<close>

definition flush ::
  "ChunkOps \<Rightarrow> bool \<Rightarrow> nat \<Rightarrow> WriteableFileChunk \<Rightarrow> wfc_error + WriteableFileChunk" where
  "flush ops block syncToken s =
     (case flushLastIfNonEmpty ops (syncToken > serialNum s) s of
        Inl e \<Rightarrow> Inl e
      | Inr (chunkId, s1) \<Rightarrow>
          let (chunkId2, s2) =
                (if chunkId \<ge> 0 then
                   let s' = s1\<lparr>serialNum := setSerialNum ops (serialNum s1) syncToken\<rparr>
                   in (chunkId,
                       s'\<lparr>executorTasks := executorTasks s' @ [(nat chunkId, serialNum s')]\<rparr>)
                 else if block \<and> chunkMap s1 \<noteq> [] then (int (fst (last (chunkMap s1))), s1)
                 else (chunkId, s1))
          in if block \<and> chunkId2 \<ge> 0 \<and> map_find (chunkMap s2) (nat chunkId2) \<noteq> None
             then Inl Suspended
             else Inr s2)"

definition append ::
  "ChunkOps \<Rightarrow> nat \<Rightarrow> nat \<Rightarrow> string \<Rightarrow> WriteableFileChunk
     \<Rightarrow> wfc_error + ((nat \<times> nat \<times> nat) \<times> WriteableFileChunk)" where
  "append ops sn lid buffer s =
     (if frozen s then Inl AssertNotFrozen
      else
        case (if \<not> hasRoom ops (active s) (length buffer) then flush ops False (serialNum s) s
              else Inr s) of
          Inl e \<Rightarrow> Inl e
        | Inr s1 \<Rightarrow>
            if \<not> sn \<ge> serialNum s1 then Inl AssertSerialNum
            else
              let s2 = s1\<lparr>serialNum := sn,
                         addedBytes := addedBytes s1 + adjustSize ops (length buffer)\<rparr>;
                  oldSz = chunk_size ops (active s2);
                  (lm_size, a) = Chunk_append lid buffer (active s2);
                  s3 = s2\<lparr>active := a\<rparr>;
                  s4 = s3\<lparr>diskFootprint := diskFootprint s3 - of_nat oldSz
                                               + of_nat (chunk_size ops (active s3))\<rparr>
              in Inr ((fileId s4, chunk_id (active s4), lm_size), s4))"

text \<open>
  Operations for concrete runs: a chunk has room while its bytes and the new ones stay
  within 16 bytes.
\<close>

definition bytes_of :: "Chunk \<Rightarrow> nat" where
  "bytes_of c = sum_list (map (\<lambda>e. length (snd e)) (lids c))"

definition small_ops :: ChunkOps where
  "small_ops =
     \<lparr>hasRoom = (\<lambda>c len. bytes_of c + len \<le> 16), chunk_size = bytes_of,
      adjustSize = (\<lambda>len. len), getChunkIdLimit = 4194304, setSerialNum = max\<rparr>"

definition wfc_with :: "Chunk \<Rightarrow> WriteableFileChunk" where
  "wfc_with c =
     \<lparr>frozen = False, serialNum = 10, fileId = 3, active = c, chunkMap = [],
      nextChunkId = chunk_id c + 1, addedBytes = 0, diskFootprint = 0, executorTasks = []\<rparr>"

definition ten_bytes :: Chunk where
  "ten_bytes = \<lparr>chunk_id = 0, lids = [(1, ''0123456789'')]\<rparr>"

subsection \<open>The background writer\<close>

text \<open>
  The write pipeline of \<open>WriteableFileChunk\<close>: \<open>enque\<close>, \<open>drainQ\<close>,
  \<open>insertChunks\<close>, \<open>fetchNextChain\<close>, \<open>computeChunkMeta\<close>, \<open>writeData\<close>,
  \<open>updateChunkInfo\<close>, \<open>fileWriter\<close> and \<open>flushPendingChunks\<close>.

  A \<open>ProcessedChunk::UP\<close> is an option: \<open>None\<close> is the null pointer that
  \<open>freeze\<close> enqueues as the end marker. The data file is the list of the chunks
  written, each with the offset it was written at, and its length in bytes (the padding
  that \<open>getAlignedStartPos\<close> adds only moves the length). The index file is the list
  of the serialized records written. The executor holds at most one \<open>fileWriter\<close>
  task (\<open>_writeTaskIsRunning\<close> guards it): \<open>Scheduled n\<close> is the task
  \<open>fileWriter(n)\<close> not yet started, \<open>Finishing n done\<close> the task that has left its
  first block and has not yet taken \<open>_writeMonitor\<close> again, with its local
  \<open>nextChunkId\<close> and \<open>done\<close>. Other threads can enqueue between the two.

  Chunk ids stay below \<open>LidInfo::getChunkIdLimit()\<close>, so the additions on
  \<open>uint32_t\<close> do not wrap and ids are natural numbers; the key of the end marker is
  \<open>std::numeric_limits<uint32_t>::max()\<close>. The parameter \<open>orderedChunks\<close> of
  the source's functions is \<open>orderedV\<close> here, the local \<open>nextChunkId\<close> is
  \<open>nextChunkIdV\<close>. The last serial number of a chunk in
  \<open>_chunkMap\<close> (\<open>Chunk::getLastSerial\<close>) is the parameter \<open>lastSerialOf\<close>.
  Left out: failures of the file system (the writes succeed), \<open>_chunkInfo\<close>, the
  disk footprint and the bucket statistics, on which no decision of the writer depends,
  and with them the assertion on \<open>_chunkInfo\<close> that \<open>fileWriter\<close> makes when
  it is done.
\<close>

record ProcessedChunk =
  pc_chunkId :: nat
  pc_payLoad :: nat
  pc_buf :: string

record ChunkMeta =
  cm_offset :: nat
  cm_size :: nat
  cm_lastSerial :: nat
  cm_numEntries :: nat

record PendingChunk =
  pend_idx :: "ChunkMeta \<times> (nat \<times> nat) list"
  pend_lastSerial :: nat
  pend_dataOffset :: nat
  pend_dataLen :: nat

datatype writer_task = NoTask | Scheduled nat | Finishing nat bool

record FileWriter =
  writeQ :: "ProcessedChunk option list"
  orderedChunks :: "(nat \<times> ProcessedChunk option) list"
  writeTaskIsRunning :: bool
  firstChunkIdToBeWritten :: nat
  writerTask :: writer_task
  fw_chunkMap :: "(nat \<times> Chunk) list"
  fw_alignment :: nat
  dataFile :: "(nat \<times> ProcessedChunk) list"
  dataFileSize :: nat
  pendingChunks :: "PendingChunk list"
  idxFile :: "(ChunkMeta \<times> (nat \<times> nat) list) list"
  lastPersistedSerialNum :: nat

datatype fw_error =
  AssertChunkIdBelowNext | AssertChunkIdQueuedTwice | AssertEndMarkerNotLast
  | AssertSerialOrder | AssertAlignment | AssertNotFirstInChunkMap | NullChunk
  | AssertQueueNotEmpty | AssertChunkMapNotEmpty | AssertDataNotWritten | NotEnabled

definition UINT32_MAX :: nat where
  "UINT32_MAX = 4294967295"

definition Alignment :: nat where
  "Alignment = 4096"

definition enque :: "ProcessedChunk option \<Rightarrow> FileWriter \<Rightarrow> FileWriter" where
  "enque tmp s =
     (let s1 = s\<lparr>writeQ := writeQ s @ [tmp]\<rparr>
      in if writeTaskIsRunning s1 = False
         then s1\<lparr>writeTaskIsRunning := True,
                 writerTask := Scheduled (firstChunkIdToBeWritten s1)\<rparr>
         else s1)"

definition getAlignedStartPos :: "nat \<Rightarrow> nat" where
  "getAlignedStartPos startPos =
     (if startPos mod Alignment \<noteq> 0
      then startPos + (Alignment - startPos mod Alignment)
      else startPos)"

definition drainQ :: "FileWriter \<Rightarrow> ProcessedChunk option list \<times> FileWriter" where
  "drainQ s = (writeQ s, s\<lparr>writeQ := []\<rparr>)"

fun insertChunks ::
  "(nat \<times> ProcessedChunk option) list \<Rightarrow> ProcessedChunk option list \<Rightarrow> nat
     \<Rightarrow> fw_error + (nat \<times> ProcessedChunk option) list" where
  "insertChunks orderedV [] nextChunkIdV = Inr orderedV"
| "insertChunks orderedV (Some chunk # newChunks) nextChunkIdV =
     (if \<not> pc_chunkId chunk \<ge> nextChunkIdV then Inl AssertChunkIdBelowNext
      else if map_find orderedV (pc_chunkId chunk) \<noteq> None
      then Inl AssertChunkIdQueuedTwice
      else insertChunks (map_put (pc_chunkId chunk) (Some chunk) orderedV)
             newChunks nextChunkIdV)"
| "insertChunks orderedV (None # newChunks) nextChunkIdV =
     insertChunks (map_put UINT32_MAX None orderedV) newChunks nextChunkIdV"

text \<open>
  The loop of \<open>fetchNextChain\<close>: \<open>chunks\<close> are the chunks taken so far, the head of
  the list is \<open>orderedChunks.begin()\<close>.
\<close>

fun fetchNextChain_loop ::
  "(nat \<times> ProcessedChunk option) list \<Rightarrow> nat \<Rightarrow> ProcessedChunk option list
     \<Rightarrow> ProcessedChunk option list \<times> (nat \<times> ProcessedChunk option) list" where
  "fetchNextChain_loop [] firstChunkId chunks = (chunks, [])"
| "fetchNextChain_loop ((k, v) # orderedV) firstChunkId chunks =
     (if k = firstChunkId + length chunks \<or> v = None
      then fetchNextChain_loop orderedV firstChunkId (chunks @ [v])
      else (chunks, (k, v) # orderedV))"

definition fetchNextChain ::
  "(nat \<times> ProcessedChunk option) list \<Rightarrow> nat
     \<Rightarrow> ProcessedChunk option list \<times> (nat \<times> ProcessedChunk option) list" where
  "fetchNextChain orderedV firstChunkId = fetchNextChain_loop orderedV firstChunkId []"

text \<open>
  \<open>computeChunkMeta\<close> for one chunk: the meta data of the chunk written at
  \<open>offset\<close> and the pending chunk that is appended to \<open>_pendingChunks\<close>.
\<close>

definition computeChunkMeta1 ::
  "(Chunk \<Rightarrow> nat) \<Rightarrow> nat \<Rightarrow> nat \<Rightarrow> ProcessedChunk \<Rightarrow> Chunk
     \<Rightarrow> fw_error + (ChunkMeta \<times> PendingChunk)" where
  "computeChunkMeta1 lastSerialOf alignment offset tmp act =
     (let dataLen = length (pc_buf tmp);
          cmeta = \<lparr>cm_offset = offset, cm_size = pc_payLoad tmp,
                   cm_lastSerial = lastSerialOf act, cm_numEntries = length (lids act)\<rparr>
      in if dataLen mod alignment \<noteq> 0 then Inl AssertAlignment
         else Inr (cmeta,
                   \<lparr>pend_idx = (cmeta, map (\<lambda>e. (fst e, length (snd e))) (lids act)),
                    pend_lastSerial = lastSerialOf act,
                    pend_dataOffset = offset, pend_dataLen = dataLen\<rparr>))"

text \<open>
  The loop of \<open>computeChunkMeta\<close> over the chain. It returns the chain without the
  end marker, the bytes to write, \<open>done\<close>, the meta data and the pending chunks.
\<close>

fun computeChunkMeta_loop ::
  "(Chunk \<Rightarrow> nat) \<Rightarrow> nat \<Rightarrow> (nat \<times> Chunk) list \<Rightarrow> nat \<Rightarrow> ProcessedChunk option list
     \<Rightarrow> nat \<Rightarrow> nat \<Rightarrow> ChunkMeta list \<Rightarrow> PendingChunk list
     \<Rightarrow> fw_error + (ProcessedChunk list \<times> nat \<times> bool \<times> ChunkMeta list \<times> PendingChunk list)"
  where
  "computeChunkMeta_loop lastSerialOf alignment cmap startPos [] sz lastSerial cmetaV pend =
     Inr ([], sz, False, cmetaV, pend)"
| "computeChunkMeta_loop lastSerialOf alignment cmap startPos (None # chunks) sz lastSerial
     cmetaV pend =
     (if chunks = [] then Inr ([], sz, True, cmetaV, pend) else Inl AssertEndMarkerNotLast)"
| "computeChunkMeta_loop lastSerialOf alignment cmap startPos (Some chunk # chunks) sz
     lastSerial cmetaV pend =
     (case map_find cmap (pc_chunkId chunk) of
        None \<Rightarrow> Inl NullChunk
      | Some act \<Rightarrow>
          (case computeChunkMeta1 lastSerialOf alignment (startPos + sz) chunk act of
             Inl e \<Rightarrow> Inl e
           | Inr (cmeta, pc) \<Rightarrow>
               if \<not> cm_lastSerial cmeta \<ge> lastSerial then Inl AssertSerialOrder
               else
                 (case computeChunkMeta_loop lastSerialOf alignment cmap startPos chunks
                         (sz + length (pc_buf chunk)) (cm_lastSerial cmeta)
                         (cmetaV @ [cmeta]) (pend @ [pc]) of
                    Inl e \<Rightarrow> Inl e
                  | Inr (written, r) \<Rightarrow> Inr (chunk # written, r))))"

definition computeChunkMeta ::
  "(Chunk \<Rightarrow> nat) \<Rightarrow> ProcessedChunk option list \<Rightarrow> nat \<Rightarrow> FileWriter
     \<Rightarrow> fw_error + (ProcessedChunk list \<times> nat \<times> bool \<times> ChunkMeta list \<times> PendingChunk list)"
  where
  "computeChunkMeta lastSerialOf chunks startPos s =
     (let lastSerial = lastPersistedSerialNum s
      in if pendingChunks s \<noteq> [] \<and> \<not> pend_lastSerial (last (pendingChunks s)) \<ge> lastSerial
         then Inl AssertSerialOrder
         else computeChunkMeta_loop lastSerialOf (fw_alignment s) (fw_chunkMap s) startPos chunks 0
                (if pendingChunks s \<noteq> [] then pend_lastSerial (last (pendingChunks s))
                 else lastSerial)
                [] (pendingChunks s))"

fun writeData_loop ::
  "ProcessedChunk list \<Rightarrow> nat \<Rightarrow> (nat \<times> ProcessedChunk) list" where
  "writeData_loop [] pos = []"
| "writeData_loop (chunk # chunks) pos =
     (pos, chunk) # writeData_loop chunks (pos + length (pc_buf chunk))"

definition writeData :: "ProcessedChunk list \<Rightarrow> nat \<Rightarrow> nat \<Rightarrow> FileWriter \<Rightarrow> FileWriter" where
  "writeData chunks startPos sz s =
     s\<lparr>dataFile := dataFile s @ writeData_loop chunks startPos,
       dataFileSize := startPos + sz\<rparr>"

fun updateChunkInfo ::
  "ProcessedChunk list \<Rightarrow> (nat \<times> Chunk) list \<Rightarrow> fw_error + (nat \<times> Chunk) list" where
  "updateChunkInfo [] cmap = Inr cmap"
| "updateChunkInfo (chunk # chunks) cmap =
     (case cmap of
        [] \<Rightarrow> Inl AssertNotFirstInChunkMap
      | (k, act) # rest \<Rightarrow>
          if k = pc_chunkId chunk then updateChunkInfo chunks rest
          else Inl AssertNotFirstInChunkMap)"

text \<open>
  The first block of \<open>fileWriter\<close>, up to the point where it takes
  \<open>_writeMonitor\<close> again.
\<close>

definition fileWriter_body :: "(Chunk \<Rightarrow> nat) \<Rightarrow> FileWriter \<Rightarrow> fw_error + FileWriter" where
  "fileWriter_body lastSerialOf s =
     (case writerTask s of
        Scheduled firstChunkId \<Rightarrow>
          let (newChunks, s1) = drainQ s
          in if newChunks = [] then Inr (s1\<lparr>writerTask := Finishing firstChunkId False\<rparr>)
             else
               (case insertChunks (orderedChunks s1) newChunks firstChunkId of
                  Inl e \<Rightarrow> Inl e
                | Inr inserted \<Rightarrow>
                    let (chunks, remaining) = fetchNextChain inserted firstChunkId;
                        nextChunkIdV = firstChunkId + length chunks;
                        startPos = getAlignedStartPos (dataFileSize s1);
                        s2 = s1\<lparr>orderedChunks := remaining\<rparr>
                    in (case computeChunkMeta lastSerialOf chunks startPos s2 of
                          Inl e \<Rightarrow> Inl e
                        | Inr (written, sz, done, cmetaV, pend) \<Rightarrow>
                            let s3 = writeData written startPos sz (s2\<lparr>pendingChunks := pend\<rparr>)
                            in (case updateChunkInfo written (fw_chunkMap s3) of
                                  Inl e \<Rightarrow> Inl e
                                | Inr cmap \<Rightarrow>
                                    Inr (s3\<lparr>fw_chunkMap := cmap,
                                            writerTask := Finishing nextChunkIdV done\<rparr>))))
      | _ \<Rightarrow> Inl NotEnabled)"

text \<open>The rest of \<open>fileWriter\<close>, under \<open>_writeMonitor\<close>.\<close>

definition fileWriter_tail :: "FileWriter \<Rightarrow> fw_error + FileWriter" where
  "fileWriter_tail s =
     (case writerTask s of
        Finishing nextChunkIdV done \<Rightarrow>
          if done then
            if writeQ s \<noteq> [] then Inl AssertQueueNotEmpty
            else if fw_chunkMap s \<noteq> [] then Inl AssertChunkMapNotEmpty
            else Inr (s\<lparr>writeTaskIsRunning := False, writerTask := NoTask\<rparr>)
          else if writeQ s = []
          then Inr (s\<lparr>firstChunkIdToBeWritten := nextChunkIdV, writeTaskIsRunning := False,
                      writerTask := NoTask\<rparr>)
          else Inr (s\<lparr>writeTaskIsRunning := True, writerTask := Scheduled nextChunkIdV\<rparr>)
      | _ \<Rightarrow> Inl NotEnabled)"

definition needFlushPendingChunks :: "nat \<Rightarrow> nat \<Rightarrow> PendingChunk list \<Rightarrow> fw_error + bool" where
  "needFlushPendingChunks sn datFileLen pend =
     (case pend of
        [] \<Rightarrow> Inr False
      | pc # rest \<Rightarrow>
          if pend_lastSerial pc > sn then Inr False
          else
            let datWritten = (datFileLen \<ge> pend_dataOffset pc + pend_dataLen pc)
            in if pend_lastSerial pc < sn
               then (if datWritten then Inr True else Inl AssertDataNotWritten)
               else Inr datWritten)"

text \<open>
  The loop of \<open>unconditionallyFlushPendingChunks\<close>: it takes pending chunks from the
  front while they need flushing and collects their index records in \<open>os\<close>.
\<close>

fun flushPending_loop ::
  "nat \<Rightarrow> nat \<Rightarrow> PendingChunk list \<Rightarrow> nat \<Rightarrow> (ChunkMeta \<times> (nat \<times> nat) list) list
     \<Rightarrow> fw_error + (PendingChunk list \<times> nat \<times> (ChunkMeta \<times> (nat \<times> nat) list) list)" where
  "flushPending_loop sn datFileLen [] lastSerial os = Inr ([], lastSerial, os)"
| "flushPending_loop sn datFileLen (pc # pend) lastSerial os =
     (case needFlushPendingChunks sn datFileLen (pc # pend) of
        Inl e \<Rightarrow> Inl e
      | Inr need \<Rightarrow>
          if \<not> need then Inr (pc # pend, lastSerial, os)
          else if \<not> datFileLen \<ge> pend_dataOffset pc + pend_dataLen pc
          then Inl AssertDataNotWritten
          else if \<not> lastSerial \<le> pend_lastSerial pc then Inl AssertSerialOrder
          else flushPending_loop sn datFileLen pend (pend_lastSerial pc) (os @ [pend_idx pc]))"

definition flushPendingChunks :: "nat \<Rightarrow> FileWriter \<Rightarrow> fw_error + FileWriter" where
  "flushPendingChunks sn s =
     (let datFileLen = dataFileSize s
      in case needFlushPendingChunks sn datFileLen (pendingChunks s) of
           Inl e \<Rightarrow> Inl e
         | Inr need \<Rightarrow>
             if \<not> need then Inr s
             else
               (case flushPending_loop sn datFileLen (pendingChunks s)
                       (lastPersistedSerialNum s) [] of
                  Inl e \<Rightarrow> Inl e
                | Inr (pend, lastSerial, os) \<Rightarrow>
                    Inr (s\<lparr>pendingChunks := pend, idxFile := idxFile s @ os,
                           lastPersistedSerialNum :=
                             (if lastPersistedSerialNum s < lastSerial then lastSerial
                              else lastPersistedSerialNum s)\<rparr>)))"

text \<open>
  What the threads do to the writer, one event at a time: a chunk is rolled over into
  \<open>_chunkMap\<close> (\<open>flushLastIfNonEmpty\<close>), a packing task ends and enqueues its
  processed chunk (\<open>internalFlush\<close>; \<open>Enque None\<close> is \<open>freeze\<close>), the writer task
  runs its first block or its end, the pending chunks are flushed.
\<close>

datatype event =
  RollOver Chunk
  | Enque "ProcessedChunk option"
  | WriterBody
  | WriterTail
  | FlushPendingChunks nat

definition step :: "(Chunk \<Rightarrow> nat) \<Rightarrow> event \<Rightarrow> FileWriter \<Rightarrow> fw_error + FileWriter" where
  "step lastSerialOf ev s =
     (case ev of
        RollOver c \<Rightarrow> Inr (s\<lparr>fw_chunkMap := map_put (chunk_id c) c (fw_chunkMap s)\<rparr>)
      | Enque tmp \<Rightarrow> Inr (enque tmp s)
      | WriterBody \<Rightarrow> fileWriter_body lastSerialOf s
      | WriterTail \<Rightarrow> fileWriter_tail s
      | FlushPendingChunks sn \<Rightarrow> flushPendingChunks sn s)"

fun run :: "(Chunk \<Rightarrow> nat) \<Rightarrow> event list \<Rightarrow> FileWriter \<Rightarrow> fw_error + FileWriter" where
  "run lastSerialOf [] s = Inr s"
| "run lastSerialOf (ev # evs) s =
     (case step lastSerialOf ev s of Inl e \<Rightarrow> Inl e | Inr s' \<Rightarrow> run lastSerialOf evs s')"

definition new_writer :: "nat \<Rightarrow> FileWriter" where
  "new_writer firstId =
     \<lparr>writeQ = [], orderedChunks = [], writeTaskIsRunning = False,
      firstChunkIdToBeWritten = firstId, writerTask = NoTask, fw_chunkMap = [],
      fw_alignment = 1, dataFile = [], dataFileSize = 0, pendingChunks = [], idxFile = [],
      lastPersistedSerialNum = 0\<rparr>"

definition written_ids :: "FileWriter \<Rightarrow> nat list" where
  "written_ids s = map (\<lambda>seg. pc_chunkId (snd seg)) (dataFile s)"

definition index_offsets :: "FileWriter \<Rightarrow> nat list" where
  "index_offsets s =
     map (\<lambda>r. cm_offset (fst r)) (idxFile s) @
     map (\<lambda>pc. cm_offset (fst (pend_idx pc))) (pendingChunks s)"

text \<open>Chunks 5, 6 and 7, of which 6 is packed first.\<close>

definition chunk_no :: "nat \<Rightarrow> Chunk" where
  "chunk_no i = \<lparr>chunk_id = i, lids = [(i, ''doc'')]\<rparr>"

definition packed :: "nat \<Rightarrow> ProcessedChunk" where
  "packed i = \<lparr>pc_chunkId = i, pc_payLoad = 3, pc_buf = ''doc''\<rparr>"

definition six_before_five :: "event list" where
  "six_before_five =
     [RollOver (chunk_no 5), RollOver (chunk_no 6), RollOver (chunk_no 7),
      Enque (Some (packed 6)), WriterBody, Enque (Some (packed 5)), WriterTail,
      WriterBody, Enque (Some (packed 7)), WriterTail, WriterBody, WriterTail,
      FlushPendingChunks 0]"

text \<open>
  The invariant of the writer, relative to the state \<open>s0\<close> it started from. Every
  entry of \<open>orderedChunks\<close> is a chunk under its own id (\<open>good_map\<close>); the chunk
  id the writer expects next (\<open>expected\<close>: the argument of the scheduled task, the
  local \<open>nextChunkId\<close> of the running one, or \<open>_firstChunkIdToBeWritten\<close>) is the
  first id plus the number of chunks written since; these chunks have consecutive ids,
  and the index records, written or pending, have their offsets in the same order.
\<close>

definition good_map :: "(nat \<times> ProcessedChunk option) list \<Rightarrow> bool" where
  "good_map m = (\<forall>p \<in> set m. case snd p of None \<Rightarrow> False | Some c \<Rightarrow> pc_chunkId c = fst p)"

fun expected_of :: "writer_task \<Rightarrow> nat \<Rightarrow> nat" where
  "expected_of NoTask f = f"
| "expected_of (Scheduled n) f = n"
| "expected_of (Finishing n d) f = n"

definition expected :: "FileWriter \<Rightarrow> nat" where
  "expected s = expected_of (writerTask s) (firstChunkIdToBeWritten s)"

definition writer_inv :: "FileWriter \<Rightarrow> FileWriter \<Rightarrow> bool" where
  "writer_inv s0 s =
     ((\<exists>new. dataFile s = dataFile s0 @ new \<and>
         map (\<lambda>seg. pc_chunkId (snd seg)) new =
           [firstChunkIdToBeWritten s0 ..< firstChunkIdToBeWritten s0 + length new] \<and>
         index_offsets s = index_offsets s0 @ map fst new \<and>
         expected s = firstChunkIdToBeWritten s0 + length new) \<and>
      None \<notin> set (writeQ s) \<and> good_map (orderedChunks s) \<and>
      (writeTaskIsRunning s = (writerTask s \<noteq> NoTask)) \<and>
      (\<forall>n. writerTask s \<noteq> Finishing n True))"

section \<open>Document summaries: AbsDistanceDFW\<close>

subsection \<open>The square root of a 64-bit integer in double precision\<close>

text \<open>
  \<open>findMinDistance\<close> ends with \<open>(uint64_t) std::sqrt((double) absdist)\<close>. The three
  steps are those of IEEE 754 binary64 with rounding to nearest, written with natural
  numbers. \<open>double_of_nat\<close> is the value of the conversion of a 64-bit unsigned integer
  to \<open>double\<close>: numbers below \<open>2^53\<close> are exact, larger ones are rounded to 53
  significant bits, ties to even. \<open>sqrt_double\<close> is the correctly rounded square root
  of such a value \<open>d > 0\<close>: with \<open>4^e \<le> d < 4^(e+1)\<close> the root lies in
  \<open>[2^e, 2^(e+1))\<close>, where doubles are the multiples of \<open>2^(e-52)\<close>, so the result
  is \<open>R / 2^s\<close> with \<open>s = 52 - e\<close> and \<open>R\<close> the integer nearest to the root of
  \<open>d * 4^s\<close> (a tie cannot occur). The conversion back to \<open>uint64_t\<close> truncates.
  \<open>isqrt\<close> is the integer square root.
\<close>

fun bitlen :: "nat \<Rightarrow> nat" where
  "bitlen n = (if n = 0 then 0 else Suc (bitlen (n div 2)))"

function isqrt :: "nat \<Rightarrow> nat" where
  "isqrt n =
     (if n < 2 then n
      else let r = 2 * isqrt (n div 4) in if (r + 1) * (r + 1) \<le> n then r + 1 else r)"
  by pat_completeness auto
termination
  by (relation "measure (\<lambda>n. n)") auto

declare bitlen.simps [simp del]

declare isqrt.simps [simp del]

definition double_of_nat :: "nat \<Rightarrow> nat" where
  "double_of_nat x =
     (if x < 2 ^ 53 then x
      else
        let sh = bitlen x - 53;
            q = x div 2 ^ sh;
            r = x mod 2 ^ sh;
            h = 2 ^ (sh - 1)
        in (if r > h \<or> (r = h \<and> odd q) then q + 1 else q) * 2 ^ sh)"

definition sqrt_double :: "nat \<Rightarrow> nat \<times> nat" where
  "sqrt_double d =
     (if d = 0 then (0, 0)
      else
        let e = (bitlen d - 1) div 2;
            s = 52 - e;
            N = d * 4 ^ s;
            t = isqrt N
        in (if N - t * t > t then t + 1 else t, s))"

definition sqrt_trunc :: "nat \<Rightarrow> nat" where
  "sqrt_trunc x = (let (R, s) = sqrt_double (double_of_nat x) in R div 2 ^ s)"

definition sqrt_u64 :: "64 word \<Rightarrow> 64 word" where
  "sqrt_u64 x = of_nat (sqrt_trunc (unat x))"

subsection \<open>The distance writer\<close>

text \<open>
  A \<open>Location\<close> has the signed 32-bit coordinates of the query position, the
  unsigned 32-bit aspect factor and the parse error (\<open>NULL\<close> when it parsed). The
  coordinates of a document are decoded from the stored 64-bit values by
  \<open>ZCurve::decode\<close>, a parameter. The differences are computed in \<open>int32_t\<close> and
  stored in \<open>uint32_t\<close>: word subtraction. The squares are added in \<open>uint64_t\<close>.
  Modelled from the spec: \<open>IAttributeVector::get(docid, buffer, size)\<close> (not among the
  sources) returns the number of values of the document and fills the buffer with the
  first \<open>size\<close> of them; the values of the document are \<open>vals\<close>.
\<close>

record Location =
  getX :: "32 word"
  getY :: "32 word"
  getXAspect :: "32 word"
  getParseError :: "string option"

definition INT64_MAX :: "64 word" where
  "INT64_MAX = 0x7FFFFFFFFFFFFFFF"

definition attribute_get :: "64 word list \<Rightarrow> nat \<Rightarrow> nat \<times> 64 word list" where
  "attribute_get vals sz = (length vals, take sz vals @ replicate (sz - length vals) 0)"

definition abs_diff32 :: "32 word \<Rightarrow> 32 word \<Rightarrow> 32 word" where
  "abs_diff32 a doc = (if doc <s a then a - doc else doc - a)"

definition dist2_of :: "(64 word \<Rightarrow> 32 word \<times> 32 word) \<Rightarrow> Location \<Rightarrow> 64 word \<Rightarrow> 64 word" where
  "dist2_of decode location docxy =
     (let (docx, docy) = decode docxy;
          dx = abs_diff32 (getX location) docx;
          dx = (if getXAspect location \<noteq> 0
                then ucast (drop_bit 32 ((ucast dx :: 64 word) * ucast (getXAspect location)))
                else dx);
          dy = abs_diff32 (getY location) docy
      in (ucast dx :: 64 word) * ucast dx + ucast dy * ucast dy)"

fun findMinDistance_loop ::
  "(64 word \<Rightarrow> 32 word \<times> 32 word) \<Rightarrow> Location \<Rightarrow> 64 word list \<Rightarrow> 64 word \<Rightarrow> 64 word" where
  "findMinDistance_loop decode location [] absdist = absdist"
| "findMinDistance_loop decode location (docxy # pos) absdist =
     (let dist2 = dist2_of decode location docxy
      in findMinDistance_loop decode location pos (if dist2 < absdist then dist2 else absdist))"

definition findMinDistance ::
  "(64 word \<Rightarrow> 32 word \<times> 32 word) \<Rightarrow> Location \<Rightarrow> 64 word list \<Rightarrow> 64 word" where
  "findMinDistance decode location vals =
     (let (numValues, pos) = attribute_get vals 16;
          (numValues, pos) = (if numValues > 16 then attribute_get vals numValues
                              else (numValues, pos))
      in sqrt_u64 (findMinDistance_loop decode location (take numValues pos) INT64_MAX))"

text \<open>\<open>vespalib::stringify\<close>: the decimal digits of a number.\<close>

function stringify :: "nat \<Rightarrow> string" where
  "stringify n =
     (if n < 10 then [''0123456789'' ! n]
      else stringify (n div 10) @ [''0123456789'' ! (n mod 10)])"
  by pat_completeness auto
termination
  by (relation "measure (\<lambda>n. n)") auto

declare stringify.simps [simp del]

text \<open>
  What \<open>insertField\<close> inserts for a distance, by the type of the field: the last
  block of the function.
\<close>

definition insert_distance :: "ResType \<Rightarrow> 64 word \<Rightarrow> slime_value list" where
  "insert_distance t absdist =
     (if t = RES_INT then [SLong (sint absdist)]
      else
        (if t = RES_STRING \<or> t = RES_LONG_STRING \<or> t = RES_XMLSTRING
         then [SString (stringify (unat absdist))] else []) @
        (if t = RES_LONG_DATA \<or> t = RES_DATA
         then [SData (stringify (unat absdist))] else []))"

text \<open>
  The state of a docsum request, as far as this writer reads it: the location string of
  the query and the parsed location, which \<open>_callback.ParseLocation\<close> (a parameter)
  fills in on first use. \<open>insertField\<close> returns what it inserts and the state.
\<close>

record GetDocsumsState =
  args_location :: string
  parsedLocation :: "Location option"

definition AbsDistanceDFW_insertField ::
  "(64 word \<Rightarrow> 32 word \<times> 32 word) \<Rightarrow> (GetDocsumsState \<Rightarrow> GetDocsumsState)
     \<Rightarrow> (nat \<Rightarrow> 64 word list) \<Rightarrow> nat \<Rightarrow> GetDocsumsState \<Rightarrow> ResType
     \<Rightarrow> docsum_error + (slime_value list \<times> GetDocsumsState)" where
  "AbsDistanceDFW_insertField decode ParseLocation attribute docid st t =
     (let locationStr = args_location st
      in if length locationStr > 0 then
           (let st1 = (if parsedLocation st = None then ParseLocation st else st)
            in case parsedLocation st1 of
                 None \<Rightarrow> Inl AssertionFailed
               | Some location \<Rightarrow>
                   if getParseError location = None
                   then Inr (insert_distance t (findMinDistance decode location (attribute docid)),
                             st1)
                   else Inr ([], st1))
         else Inr ([], st))"

text \<open>
  For concrete runs: stored values that carry x in the upper and y in the lower 32
  bits, and a query at the origin.
\<close>

definition decode_halves :: "64 word \<Rightarrow> 32 word \<times> 32 word" where
  "decode_halves v = (ucast (drop_bit 32 v), ucast v)"

definition origin :: Location where
  "origin = \<lparr>getX = 0, getY = 0, getXAspect = 0, getParseError = None\<rparr>"





text \<open>A request whose location string has been parsed to the origin.\<close>

definition located :: GetDocsumsState where
  "located = \<lparr>args_location = ''(2,0,0,1,0,1,0)'', parsedLocation = Some origin\<rparr>"

section \<open>Theorems\<close>

subsection \<open>NodePrioritizer\<close>



subsection \<open>ReferenceAttribute\<close>

text \<open>
  C2. \<open>considerCompact\<close> calls \<open>compactWorst\<close> (once) and returns true exactly when
  the dead bytes are at least \<open>DEAD_BYTES_SLACK\<close> = 65536 and the used bytes times the
  configured ratio are less than the dead bytes; otherwise it returns false and leaves
  the attribute as it was.
\<close>

theorem considerCompact_iff:
  "DEAD_BYTES_SLACK = 65536 \<and>
   considerCompact to_double dmul ratio a =
     (if deadBytes (cachedUniqueStoreMemoryUsage a) \<ge> 65536 \<and>
         dmul (to_double (usedBytes (cachedUniqueStoreMemoryUsage a))) ratio
           < to_double (deadBytes (cachedUniqueStoreMemoryUsage a))
      then (True, a\<lparr>compactWorstCalls := compactWorstCalls a + 1\<rparr>)
      else (False, a))"
  by (simp add: considerCompact_def DEAD_BYTES_SLACK_def compactWorst_def Let_def)

theorem considerCompact_iff_witness:
  "considerCompact real (*) (5 / 100) (attr_with_usage 1000000 100000) =
     (True, (attr_with_usage 1000000 100000)\<lparr>compactWorstCalls := 1\<rparr>) \<and>
   considerCompact real (*) (5 / 100) (attr_with_usage 1000000 65535) =
     (False, attr_with_usage 1000000 65535) \<and>
   considerCompact real (*) (5 / 100) (attr_with_usage 4000000 65536) =
     (False, attr_with_usage 4000000 65536)"
  using considerCompact_iff [THEN conjunct2, of real "(*)" "5 / 100" "attr_with_usage 1000000 100000"]
    considerCompact_iff [THEN conjunct2, of real "(*)" "5 / 100" "attr_with_usage 1000000 65535"]
    considerCompact_iff [THEN conjunct2, of real "(*)" "5 / 100" "attr_with_usage 4000000 65536"]
  by (simp add: attr_with_usage_def)

subsection \<open>FieldPathUpdate\<close>

lemma iterate_results_filter:
  "iterate_results it path results doc =
     foldl (\<lambda>d vars. it path vars d) doc
       (map fst (filter (\<lambda>p. snd p = Result_True) results))"
  by (induction results arbitrary: doc) auto

lemma filter_no_true:
  "(\<forall>p \<in> set rs. snd p \<noteq> Result_True) \<Longrightarrow> filter (\<lambda>p. snd p = Result_True) rs = []"
  by (induction rs) auto

text \<open>
  C7. \<open>applyTo\<close> resolves the field path first (and fails when that fails). With no
  where-clause it iterates the document against the path once, with the variables the
  handler starts with. With a where-clause it evaluates the selection on the document
  and iterates once for each binding whose result is true, in order, with that binding's
  variables; with no true binding the document is returned as it was.
\<close>

theorem applyTo_iterations:
  "(buildFieldPath (originalFieldPath upd) = Inl e \<longrightarrow>
      applyTo buildFieldPath parse contains it vars0 upd doc = Inl e) \<and>
   (buildFieldPath (originalFieldPath upd) = Inr path \<longrightarrow>
      (originalWhereClause upd = [] \<longrightarrow>
         applyTo buildFieldPath parse contains it vars0 upd doc = Inr (it path vars0 doc)) \<and>
      (originalWhereClause upd \<noteq> [] \<and> parse (originalWhereClause upd) = Inr w \<longrightarrow>
         applyTo buildFieldPath parse contains it vars0 upd doc =
           Inr (foldl (\<lambda>d vars. it path vars d) doc
                  (map fst (filter (\<lambda>p. snd p = Result_True) (contains w doc)))) \<and>
         ((\<forall>p \<in> set (contains w doc). snd p \<noteq> Result_True) \<longrightarrow>
            applyTo buildFieldPath parse contains it vars0 upd doc = Inr doc)))"
  by (auto simp: applyTo_def iterate_results_filter filter_no_true)

theorem applyTo_iterations_witness:
  "applyTo path_of_string parse_any three_bindings log_iteration [] (update_of []) []
     = Inr [(''f{$x}'', [])] \<and>
   applyTo path_of_string parse_any three_bindings log_iteration [] (update_of ''true'') []
     = Inr [(''f{$x}'', ''x=1''), (''f{$x}'', ''x=3'')] \<and>
   applyTo path_of_string parse_any no_true_binding log_iteration [] (update_of ''true'') []
     = Inr []"
  using applyTo_iterations [of path_of_string "update_of []" "()" parse_any
      three_bindings log_iteration "[]" "[]" "''f{$x}''" "()"]
    applyTo_iterations [of path_of_string "update_of ''true''" "()" parse_any
      three_bindings log_iteration "[]" "[]" "''f{$x}''" "()"]
    applyTo_iterations [of path_of_string "update_of ''true''" "()" parse_any
      no_true_binding log_iteration "[]" "[]" "''f{$x}''" "()"]
  by (simp add: three_bindings_def no_true_binding_def log_iteration_def update_of_def
      path_of_string_def parse_any_def)

subsection \<open>DynamicDocsumWriter\<close>

lemma index_of_enum_nonneg:
  "0 \<le> i \<Longrightarrow> (0 \<le> index_of_enum es ev i) = (ev \<in> enumValue ` set es)"
  by (induction es arbitrary: i) auto

lemma GetIndexFromEnumValue_nonneg:
  "(0 \<le> GetIndexFromEnumValue c ev) = (ev \<in> enumValue ` set (entries c))"
  by (simp add: GetIndexFromEnumValue_def index_of_enum_nonneg)

lemma filter_count_same:
  "ev \<notin> f ` set es \<Longrightarrow> filter (\<lambda>e. f e = ev \<or> P e) es = filter P es"
  by (intro filter_cong) auto

lemma filter_count_new:
  "distinct (map f es) \<Longrightarrow> ev \<in> f ` set es \<Longrightarrow> \<forall>e \<in> set es. f e = ev \<longrightarrow> \<not> P e \<Longrightarrow>
     length (filter (\<lambda>e. f e = ev \<or> P e) es) = length (filter P es) + 1"
proof (induction es)
  case Nil
  then show ?case by simp
next
  case (Cons e es)
  show ?case
  proof (cases "f e = ev")
    case True
    with Cons.prems(1) have "ev \<notin> f ` set es" by simp
    then have "filter (\<lambda>e. f e = ev \<or> P e) es = filter P es"
      by (rule filter_count_same)
    with True Cons.prems show ?thesis by simp
  next
    case False
    with Cons show ?thesis by auto
  qed
qed

lemma length_filter_all:
  "(length (filter P xs) = length xs) = list_all P xs"
proof (induction xs)
  case Nil
  then show ?case by simp
next
  case (Cons x xs)
  show ?case
  proof (cases "P x")
    case True
    with Cons show ?thesis by simp
  next
    case False
    have "length (filter P xs) \<noteq> Suc (length xs)"
      using length_filter_le [of P xs] by linarith
    with False show ?thesis by simp
  qed
qed

lemma counters_new:
  assumes "\<forall>c \<in> set (classes config). distinct (map enumValue (entries c))"
  shows "\<forall>c \<in> set (classes (resultConfig (DynamicDocsumWriter_new config))).
           counters_ok (DynamicDocsumWriter_new config) c"
proof -
  have "has_generated_writer (DynamicDocsumWriter_new config) = (\<lambda>e. False)"
    and "has_writer (DynamicDocsumWriter_new config) = (\<lambda>e. False)"
    by (simp_all add: fun_eq_iff has_generated_writer_def has_writer_def
        DynamicDocsumWriter_new_def)
  with assms show ?thesis
    by (auto simp: counters_ok_def DynamicDocsumWriter_new_def)
qed

lemma counters_Override:
  assumes inv: "\<forall>c \<in> set (classes (resultConfig dw)). counters_ok dw c"
  shows "\<forall>c \<in> set (classes (resultConfig (snd (Override fieldName writer dw)))).
           counters_ok (snd (Override fieldName writer dw)) c"
proof (cases "fst (Override fieldName writer dw)")
  case False
  then have "snd (Override fieldName writer dw) = dw"
    by (auto simp: Override_def Let_def split: if_splits)
  with inv show ?thesis by simp
next
  case True
  define ev where "ev = FieldNameEnum_Lookup (resultConfig dw) fieldName"
  define dw' where "dw' = snd (Override fieldName writer dw)"
  from True have free: "overrideTable dw ev = None"
    by (auto simp: Override_def Let_def ev_def split: if_splits)
  from True have tbl: "overrideTable dw' = (overrideTable dw)(ev \<mapsto> writer)"
    by (auto simp: Override_def Let_def ev_def dw'_def split: if_splits)
  have gen: "has_generated_writer dw' =
      (\<lambda>e. (enumValue e = ev \<and> IsGenerated writer) \<or> has_generated_writer dw e)"
    using free by (auto simp: has_generated_writer_def tbl fun_eq_iff split: option.splits)
  have ovr: "has_writer dw' = (\<lambda>e. enumValue e = ev \<or> has_writer dw e)"
    by (auto simp: has_writer_def tbl fun_eq_iff)
  define upd where "upd = (\<lambda>c. if GetIndexFromEnumValue c ev \<ge> 0
                    then let info = dynamicInfo c;
                             info = info\<lparr>overrideCnt := overrideCnt info + 1\<rparr>;
                             info = (if IsGenerated writer
                                     then info\<lparr>generateCnt := generateCnt info + 1\<rparr>
                                     else info)
                         in c\<lparr>dynamicInfo := info\<rparr>
                    else c)"
  have step: "counters_ok dw' (upd c)" if c: "counters_ok dw c" for c
  proof (cases "ev \<in> enumValue ` set (entries c)")
    case False
    then have "filter (\<lambda>e. enumValue e = ev \<or> has_writer dw e) (entries c) =
               filter (has_writer dw) (entries c)"
      by (rule filter_count_same)
    moreover from False have
      "filter (\<lambda>e. (enumValue e = ev \<and> IsGenerated writer) \<or> has_generated_writer dw e)
         (entries c) = filter (has_generated_writer dw) (entries c)"
      by (intro filter_cong) auto
    ultimately show ?thesis
      using c False by (simp add: counters_ok_def GetIndexFromEnumValue_nonneg gen ovr upd_def)
  next
    case in_c: True
    from c have d: "distinct (map enumValue (entries c))" by (simp add: counters_ok_def)
    have o: "length (filter (\<lambda>e. enumValue e = ev \<or> has_writer dw e) (entries c)) =
             length (filter (has_writer dw) (entries c)) + 1"
      using d in_c free by (intro filter_count_new) (auto simp: has_writer_def)
    have g: "length (filter (\<lambda>e. (enumValue e = ev \<and> IsGenerated writer) \<or>
                                has_generated_writer dw e) (entries c)) =
             length (filter (has_generated_writer dw) (entries c)) +
               (if IsGenerated writer then 1 else 0)"
    proof (cases "IsGenerated writer")
      case True
      have "length (filter (\<lambda>e. enumValue e = ev \<or> has_generated_writer dw e) (entries c)) =
            length (filter (has_generated_writer dw) (entries c)) + 1"
        using d in_c free by (intro filter_count_new) (auto simp: has_generated_writer_def)
      with True show ?thesis by simp
    next
      case False
      then show ?thesis by simp
    qed
    show ?thesis
      using c in_c o g
      by (simp add: counters_ok_def GetIndexFromEnumValue_nonneg gen ovr Let_def upd_def)
  qed
  from True have cls: "classes (resultConfig dw') =
      map upd (classes (resultConfig dw))"
    by (auto simp: Override_def Let_def ev_def dw'_def upd_def split: if_splits)
  show ?thesis
    unfolding dw'_def [symmetric] cls using inv step by simp
qed

lemma counters_SetDefaultOutputClass:
  assumes "\<forall>c \<in> set (classes (resultConfig dw)). counters_ok dw c"
  shows "\<forall>c \<in> set (classes (resultConfig (snd (SetDefaultOutputClass classID dw)))).
           counters_ok (snd (SetDefaultOutputClass classID dw)) c"
proof (cases "fst (SetDefaultOutputClass classID dw)")
  case False
  then have "snd (SetDefaultOutputClass classID dw) = dw"
    by (auto simp: SetDefaultOutputClass_def Let_def split: if_splits)
  with assms show ?thesis by simp
next
  case True
  then have s: "snd (SetDefaultOutputClass classID dw) = dw\<lparr>defaultOutputClass := classID\<rparr>"
    by (auto simp: SetDefaultOutputClass_def Let_def split: if_splits)
  have "has_generated_writer (dw\<lparr>defaultOutputClass := classID\<rparr>) = has_generated_writer dw"
    and "has_writer (dw\<lparr>defaultOutputClass := classID\<rparr>) = has_writer dw"
    by (simp_all add: fun_eq_iff has_generated_writer_def has_writer_def)
  with assms show ?thesis
    unfolding s by (simp add: counters_ok_def)
qed

lemma counters_configure:
  "\<forall>c \<in> set (classes (resultConfig dw)). counters_ok dw c \<Longrightarrow>
     \<forall>c \<in> set (classes (resultConfig (configure calls dw))). counters_ok (configure calls dw) c"
proof (induction calls arbitrary: dw)
  case Nil
  then show ?case by simp
next
  case (Cons call calls)
  have "\<forall>c \<in> set (classes (resultConfig (setup_step call dw))). counters_ok (setup_step call dw) c"
    using Cons.prems
    by (cases call) (simp_all add: counters_Override counters_SetDefaultOutputClass)
  then show ?case using Cons.IH by simp
qed

lemma LookupResultClass_mem:
  "LookupResultClass config cid = Some c \<Longrightarrow> c \<in> set (classes config)"
  by (auto simp: LookupResultClass_def find_Some_iff)

lemma counters_all_generated:
  assumes "counters_ok dw c"
  shows "(generateCnt (dynamicInfo c) = GetNumEntries c) = all_fields_generated dw c"
    and "all_fields_generated dw c \<Longrightarrow> overrideCnt (dynamicInfo c) = generateCnt (dynamicInfo c)"
proof -
  from assms show 1: "(generateCnt (dynamicInfo c) = GetNumEntries c) = all_fields_generated dw c"
    by (simp add: counters_ok_def GetNumEntries_def all_fields_generated_def length_filter_all)
  assume a: "all_fields_generated dw c"
  then have "list_all (has_writer dw) (entries c)"
    by (auto simp: all_fields_generated_def has_generated_writer_def has_writer_def list_all_iff
        split: option.splits)
  then have "length (filter (has_writer dw) (entries c)) = length (entries c)"
    by (simp add: length_filter_all)
  with assms a 1 show "overrideCnt (dynamicInfo c) = generateCnt (dynamicInfo c)"
    by (simp add: counters_ok_def GetNumEntries_def)
qed

lemma insert_generated_total:
  "list_all (has_generated_writer dw) es \<Longrightarrow> \<exists>flds'. insert_generated dw docid es flds = Inr flds'"
  by (induction es arbitrary: flds)
    (auto simp: has_generated_writer_def split: option.splits)

lemma insertDocsum_reads:
  "\<not> allGenerated rci \<Longrightarrow> insertDocsum dw decode unpack rci docid st = Inr (r, st') \<Longrightarrow>
     reads st' = reads st @ [docid]"
  by (auto simp: insertDocsum_def getMappedDocsum_def Let_def
      split: option.splits sum.splits prod.splits)

lemma resolve_found:
  assumes "counters_ok dw oC"
    and "LookupResultClassId (resultConfig dw) name (defaultOutputClass dw) \<noteq> NoClassID (resultConfig dw)"
    and "LookupResultClass (resultConfig dw)
           (LookupResultClassId (resultConfig dw) name (defaultOutputClass dw)) = Some oC"
  shows "\<exists>rci. resolveClassInfo dw name inId = Inr rci \<and> outputClass rci = Some oC \<and>
           allGenerated rci = all_fields_generated dw oC"
proof (cases "all_fields_generated dw oC")
  case True
  with counters_all_generated [OF assms(1)] assms(2,3) show ?thesis
    by (simp add: resolveClassInfo_def resolveOutputClass_def Let_def)
next
  case False
  with counters_all_generated(1) [OF assms(1)] assms(2,3) show ?thesis
    by (auto simp: resolveClassInfo_def resolveOutputClass_def resolveInputClass_def Let_def
        split: option.splits)
qed

text \<open>
  C3. Let the writer be set up from the constructor by calls of \<open>Override\<close> and
  \<open>SetDefaultOutputClass\<close>, over classes whose fields have distinct enum values, and let
  the requested class name (or the default output class) resolve to a class of the
  configuration. Then \<open>resolveClassInfo\<close> returns with that class as the output class,
  and with \<open>allGenerated\<close> set exactly when every field of the class has a registered
  generated override writer. In that case \<open>WriteDocsum\<close> returns, for every document id
  and every store, an object that does not depend on the store, and leaves the store as
  it was: \<open>getMappedDocsum\<close> is not called. Otherwise a \<open>WriteDocsum\<close> that returns has
  read the stored summary of the document, exactly once.
\<close>

theorem WriteDocsum_all_fields_generated_no_read:
  assumes "\<forall>c \<in> set (classes config). distinct (map enumValue (entries c))"
    and "dw = configure calls (DynamicDocsumWriter_new config)"
    and "LookupResultClassId (resultConfig dw) name (defaultOutputClass dw) \<noteq> NoClassID (resultConfig dw)"
    and "LookupResultClass (resultConfig dw)
           (LookupResultClassId (resultConfig dw) name (defaultOutputClass dw)) = Some oC"
  shows "(\<exists>rci. resolveClassInfo dw name inId = Inr rci \<and> outputClass rci = Some oC \<and>
            allGenerated rci = all_fields_generated dw oC) \<and>
         (all_fields_generated dw oC \<longrightarrow>
            (\<exists>flds. \<forall>decode unpack st.
               WriteDocsum dw decode unpack name docid st = Inr (Object flds, st))) \<and>
         (\<not> all_fields_generated dw oC \<longrightarrow>
            (\<forall>decode unpack st r st'.
               WriteDocsum dw decode unpack name docid st = Inr (r, st') \<longrightarrow>
               reads st' = reads st @ [docid]))"
proof -
  have "\<forall>c \<in> set (classes (resultConfig dw)). counters_ok dw c"
    unfolding assms(2) by (rule counters_configure) (rule counters_new [OF assms(1)])
  with LookupResultClass_mem [OF assms(4)] have ok: "counters_ok dw oC" by simp
  note res = resolve_found [OF ok assms(3,4)]
  show ?thesis
  proof (intro conjI impI)
    show "\<exists>rci. resolveClassInfo dw name inId = Inr rci \<and> outputClass rci = Some oC \<and>
            allGenerated rci = all_fields_generated dw oC"
      by (rule res)
  next
    assume a: "all_fields_generated dw oC"
    then obtain flds where f: "insert_generated dw docid (entries oC) [] = Inr flds"
      using insert_generated_total [of dw "entries oC" docid "[]"]
      by (auto simp: all_fields_generated_def)
    have "WriteDocsum dw decode unpack name docid st = Inr (Object flds, st)" for decode unpack st
      using res [of "getSummaryClassId st"] a f
      by (auto simp: WriteDocsum_def insertDocsum_def)
    then show "\<exists>flds. \<forall>decode unpack st.
               WriteDocsum dw decode unpack name docid st = Inr (Object flds, st)"
      by blast
  next
    assume a: "\<not> all_fields_generated dw oC"
    show "\<forall>decode unpack st r st'.
               WriteDocsum dw decode unpack name docid st = Inr (r, st') \<longrightarrow>
               reads st' = reads st @ [docid]"
    proof (intro allI impI)
      fix decode unpack st r st'
      assume w: "WriteDocsum dw decode unpack name docid st = Inr (r, st')"
      from res [of "getSummaryClassId st"] a obtain rci where
        "resolveClassInfo dw name (getSummaryClassId st) = Inr rci" "\<not> allGenerated rci"
        by auto
      with w show "reads st' = reads st @ [docid]"
        by (auto simp: WriteDocsum_def intro: insertDocsum_reads)
    qed
  qed
qed

lemma IsGenerated_attr_writer: "IsGenerated (attr_writer gen v) = gen"
  by (simp add: attr_writer_def)

lemma two_field_writer_eq:
  "two_field_writer gen =
     \<lparr>resultConfig = two_field_config\<lparr>classes := [overridden_class gen]\<rparr>,
      defaultOutputClass = 1000000, numEnumValues = 2,
      overrideTable = [0 \<mapsto> attr_writer True 10, 1 \<mapsto> attr_writer gen 20]\<rparr>"
  by (cases gen)
    (simp_all add: two_field_writer_def DynamicDocsumWriter_new_def Override_def Let_def
      two_field_config_def two_field_class_def overridden_class_def GetIndexFromEnumValue_def
      IsGenerated_attr_writer)

lemma two_field_distinct:
  "\<forall>c \<in> set (classes two_field_config). distinct (map enumValue (entries c))"
  by (simp add: two_field_config_def two_field_class_def)

lemma two_field_lookup:
  "LookupResultClassId (resultConfig (two_field_writer gen)) ''default''
     (defaultOutputClass (two_field_writer gen)) \<noteq> NoClassID (resultConfig (two_field_writer gen))"
  "LookupResultClass (resultConfig (two_field_writer gen))
     (LookupResultClassId (resultConfig (two_field_writer gen)) ''default''
        (defaultOutputClass (two_field_writer gen))) = Some (overridden_class gen)"
  by (simp_all add: two_field_writer_eq two_field_config_def LookupResultClass_def
      overridden_class_def two_field_class_def)

lemma two_field_generated:
  "all_fields_generated (two_field_writer gen) (overridden_class gen') = gen"
  by (cases gen)
    (simp_all add: all_fields_generated_def has_generated_writer_def two_field_writer_eq
      overridden_class_def two_field_class_def IsGenerated_attr_writer)

lemma WriteDocsum_two_generated:
  "WriteDocsum (two_field_writer True) id unpack_none ''default'' 5 empty_store =
     Inr (Object [(''a'', SLong 15), (''b'', SLong 25)], empty_store)"
  by (simp add: WriteDocsum_def resolveClassInfo_def resolveOutputClass_def insertDocsum_def
      two_field_writer_eq two_field_config_def LookupResultClass_def overridden_class_def
      two_field_class_def GetNumEntries_def attr_writer_def add_field_def Let_def)

lemma WriteDocsum_one_generated:
  "WriteDocsum (two_field_writer False) id unpack_none ''default'' 5 empty_store =
     Inr (Nix, empty_store\<lparr>reads := [5]\<rparr>)"
  by (simp add: WriteDocsum_def resolveClassInfo_def resolveOutputClass_def resolveInputClass_def
      insertDocsum_def getMappedDocsum_def unpack_none_def empty_store_def
      two_field_writer_eq two_field_config_def LookupResultClass_def overridden_class_def
      two_field_class_def GetNumEntries_def Let_def)

theorem WriteDocsum_all_fields_generated_no_read_witness:
  "all_fields_generated (two_field_writer True) (overridden_class True) \<and>
   (\<exists>flds. \<forall>decode unpack st.
      WriteDocsum (two_field_writer True) decode unpack ''default'' 5 st = Inr (Object flds, st)) \<and>
   WriteDocsum (two_field_writer True) id unpack_none ''default'' 5 empty_store =
     Inr (Object [(''a'', SLong 15), (''b'', SLong 25)], empty_store) \<and>
   all_fields_generated (two_field_writer False) (overridden_class False) = False \<and>
   WriteDocsum (two_field_writer False) id unpack_none ''default'' 5 empty_store =
     Inr (Nix, empty_store\<lparr>reads := [5]\<rparr>) \<and>
   reads (empty_store\<lparr>reads := [5]\<rparr>) = reads empty_store @ [5]"
proof -
  note t = WriteDocsum_all_fields_generated_no_read [of two_field_config "two_field_writer True"
      "[CallOverride ''a'' (attr_writer True 10), CallOverride ''b'' (attr_writer True 20)]"
      "''default''" "overridden_class True" 7 5, OF two_field_distinct _ two_field_lookup,
      unfolded two_field_generated]
  note f = WriteDocsum_all_fields_generated_no_read [of two_field_config "two_field_writer False"
      "[CallOverride ''a'' (attr_writer True 10), CallOverride ''b'' (attr_writer False 20)]"
      "''default''" "overridden_class False" 7 5, OF two_field_distinct _ two_field_lookup,
      unfolded two_field_generated]
  have 1: "\<exists>flds. \<forall>decode unpack st.
      WriteDocsum (two_field_writer True) decode unpack ''default'' 5 st = Inr (Object flds, st)"
    using t by (simp add: two_field_writer_def)
  have 2: "reads (empty_store\<lparr>reads := [5]\<rparr>) = reads empty_store @ [5]"
    using f WriteDocsum_one_generated by (simp add: two_field_writer_def)
  from 1 2 WriteDocsum_two_generated WriteDocsum_one_generated show ?thesis
    by (simp add: two_field_generated)
qed

text \<open>
  When the class name of the request is unknown and no default output class is set,
  \<open>resolveOutputClass\<close> finds no class and \<open>resolveInputClass\<close> takes the class of the
  stored summaries as the output class, without setting \<open>allGenerated\<close>: every field of
  that class has a registered generated override writer, and \<open>insertDocsum\<close> reads the
  stored summary of the document.
\<close>

theorem fallback_to_input_class_counterexample:
  "LookupResultClassId (resultConfig (two_field_writer True)) ''nosuch''
     (defaultOutputClass (two_field_writer True)) = NoClassID (resultConfig (two_field_writer True)) \<and>
   resolveClassInfo (two_field_writer True) ''nosuch'' (getSummaryClassId empty_store) =
     Inr fallback_rci \<and>
   outputClass fallback_rci = Some (overridden_class True) \<and>
   all_fields_generated (two_field_writer True) (overridden_class True) \<and>
   allGenerated fallback_rci = False \<and>
   insertDocsum (two_field_writer True) id unpack_empty fallback_rci 5 empty_store =
     Inr (Object [(''a'', SLong 15), (''b'', SLong 25)], empty_store\<lparr>reads := [5]\<rparr>) \<and>
   WriteDocsum (two_field_writer True) id unpack_empty ''nosuch'' 5 empty_store =
     Inr (Object [(''a'', SLong 15), (''b'', SLong 25)], empty_store\<lparr>reads := [5]\<rparr>)"
proof -
  have r: "resolveClassInfo (two_field_writer True) ''nosuch'' (getSummaryClassId empty_store) =
     Inr fallback_rci"
    by (simp add: resolveClassInfo_def resolveOutputClass_def resolveInputClass_def
        two_field_writer_eq two_field_config_def LookupResultClass_def overridden_class_def
        two_field_class_def fallback_rci_def empty_store_def Let_def)
  have i: "insertDocsum (two_field_writer True) id unpack_empty fallback_rci 5 empty_store =
     Inr (Object [(''a'', SLong 15), (''b'', SLong 25)], empty_store\<lparr>reads := [5]\<rparr>)"
    by (simp add: insertDocsum_def getMappedDocsum_def unpack_empty_def fallback_rci_def
        two_field_writer_eq overridden_class_def two_field_class_def attr_writer_def
        add_field_def empty_store_def)
  have l: "LookupResultClassId (resultConfig (two_field_writer True)) ''nosuch''
     (defaultOutputClass (two_field_writer True)) = NoClassID (resultConfig (two_field_writer True))"
    by (simp add: two_field_writer_eq two_field_config_def)
  from r i l show ?thesis
    by (simp add: WriteDocsum_def two_field_generated fallback_rci_def)
qed

subsection \<open>ResourceCapacity\<close>

lemma double_to_int_of_int:
  "double_to_int (of_int k) = max (- 2147483648) (min 2147483647 k)"
  by (simp add: double_to_int_def)

lemma floor_min: "\<lfloor>min a b\<rfloor> = min \<lfloor>a\<rfloor> \<lfloor>b :: real\<rfloor>"
  by (simp add: min_def floor_mono) (meson floor_mono le_cases order_antisym)

text \<open>
  C6 (amended). When the capacity has room for the flavor, the result is the floor of the
  least of the three quotients (memory, cpu, disk, each divided by the flavor's
  requirement in double arithmetic), cut to the range of \<open>int\<close> by the cast;
  otherwise it is 0, also when a component is negative. For a flavor with positive
  requirements, and a division that gives at least 1 when the dividend is at least the
  positive divisor, the result is 0 exactly when some component is below the flavor's
  requirement.
\<close>

theorem freeCapacity_floor_min:
  "freeCapacityInFlavorEquivalence ddiv c fl =
     (if hasCapacityFor c fl
      then max (- 2147483648) (min 2147483647
             \<lfloor>min (min (ddiv (memory c) (minMainMemoryAvailableGb fl))
                       (ddiv (cpu c) (minCpuCores fl)))
                  (ddiv (disk c) (minDiskAvailableGb fl))\<rfloor>)
      else 0) \<and>
   ((\<forall>x y. 0 < y \<and> y \<le> x \<longrightarrow> 1 \<le> ddiv x y) \<and>
    0 < minMainMemoryAvailableGb fl \<and> 0 < minCpuCores fl \<and> 0 < minDiskAvailableGb fl \<longrightarrow>
      (freeCapacityInFlavorEquivalence ddiv c fl = 0) =
        (memory c < minMainMemoryAvailableGb fl \<or> cpu c < minCpuCores fl \<or>
         disk c < minDiskAvailableGb fl))"
proof -
  let ?q = "\<lfloor>min (min (ddiv (memory c) (minMainMemoryAvailableGb fl))
                       (ddiv (cpu c) (minCpuCores fl)))
                  (ddiv (disk c) (minDiskAvailableGb fl))\<rfloor>"
  have eq: "freeCapacityInFlavorEquivalence ddiv c fl =
     (if hasCapacityFor c fl then max (- 2147483648) (min 2147483647 ?q) else 0)"
  proof (cases "hasCapacityFor c fl")
    case True
    have "min (min (of_int \<lfloor>ddiv (memory c) (minMainMemoryAvailableGb fl)\<rfloor>)
                (of_int \<lfloor>ddiv (cpu c) (minCpuCores fl)\<rfloor>))
              (of_int \<lfloor>ddiv (disk c) (minDiskAvailableGb fl)\<rfloor>) = (of_int ?q :: real)"
      by (simp add: floor_min)
    with True show ?thesis
      by (simp add: freeCapacityInFlavorEquivalence_def Let_def double_to_int_of_int)
  next
    case False
    then show ?thesis by (simp add: freeCapacityInFlavorEquivalence_def)
  qed
  moreover have "(freeCapacityInFlavorEquivalence ddiv c fl = 0) =
        (memory c < minMainMemoryAvailableGb fl \<or> cpu c < minCpuCores fl \<or>
         disk c < minDiskAvailableGb fl)"
    if mono: "\<forall>x y. 0 < y \<and> y \<le> x \<longrightarrow> 1 \<le> ddiv x y"
      and pos: "0 < minMainMemoryAvailableGb fl" "0 < minCpuCores fl" "0 < minDiskAvailableGb fl"
  proof (cases "hasCapacityFor c fl")
    case True
    then have "1 \<le> ddiv (memory c) (minMainMemoryAvailableGb fl)"
      "1 \<le> ddiv (cpu c) (minCpuCores fl)" "1 \<le> ddiv (disk c) (minDiskAvailableGb fl)"
      using mono pos by (simp_all add: hasCapacityFor_def)
    then have "1 \<le> min (min (ddiv (memory c) (minMainMemoryAvailableGb fl))
                       (ddiv (cpu c) (minCpuCores fl)))
                  (ddiv (disk c) (minDiskAvailableGb fl))" by simp
    then have "1 \<le> ?q" by (simp add: le_floor_iff)
    then have "max (- 2147483648) (min 2147483647 ?q) \<noteq> 0" by linarith
    with True eq have "freeCapacityInFlavorEquivalence ddiv c fl \<noteq> 0" by simp
    with True show ?thesis by (auto simp: hasCapacityFor_def)
  next
    case False
    with eq show ?thesis by (auto simp: hasCapacityFor_def)
  qed
  ultimately show ?thesis by blast
qed


theorem freeCapacity_floor_min_witness:
  "freeCapacityInFlavorEquivalence (/) \<lparr>memory = 7, cpu = 5, disk = 100\<rparr> (flavor_of 2 1 10) = 3 \<and>
   freeCapacityInFlavorEquivalence (/) \<lparr>memory = 1, cpu = 5, disk = 100\<rparr> (flavor_of 2 1 10) = 0 \<and>
   freeCapacityInFlavorEquivalence (/) \<lparr>memory = 10000000000, cpu = 10000000000,
      disk = 10000000000\<rparr> (flavor_of 1 1 1) = 2147483647"
proof -
  have m: "\<forall>x y :: real. 0 < y \<and> y \<le> x \<longrightarrow> 1 \<le> x / y" by simp
  have f1: "\<lfloor>7 / 2 :: real\<rfloor> = 3" by linarith
  show ?thesis
    using freeCapacity_floor_min [of "(/)" "\<lparr>memory = 7, cpu = 5, disk = 100\<rparr>" "flavor_of 2 1 10"]
      freeCapacity_floor_min [of "(/)" "\<lparr>memory = 1, cpu = 5, disk = 100\<rparr>" "flavor_of 2 1 10"]
      freeCapacity_floor_min [of "(/)" "\<lparr>memory = 10000000000, cpu = 10000000000,
      disk = 10000000000\<rparr>" "flavor_of 1 1 1"] m f1
    by (simp add: flavor_of_def hasCapacityFor_def)
qed

theorem freeCapacity_negative_counterexample:
  "freeCapacityInFlavorEquivalence (/) \<lparr>memory = - 1, cpu = 1, disk = 1\<rparr> (flavor_of 1 1 1) = 0 \<and>
   \<lfloor>min (min ((- 1) / 1) (1 / 1)) (1 / 1 :: real)\<rfloor> = - 1"
proof -
  have "\<lfloor>- 1 :: real\<rfloor> = - 1" by linarith
  then show ?thesis
    by (simp add: freeCapacityInFlavorEquivalence_def hasCapacityFor_def flavor_of_def)
qed

subsection \<open>CommandLineOptions\<close>

lemma getDocumentIds_stdIn: "getDocumentIds cl stdIn = (ids, s) \<Longrightarrow> s = stdIn"
  by (auto simp: getDocumentIds_def Let_def split: if_splits)

lemma parse_stdIn: "snd (parseCommandLineArguments parse pv n2 args stdIn) = stdIn"
  by (auto simp: parseCommandLineArguments_def Let_def dest: getDocumentIds_stdIn
      split: sum.splits prod.splits if_splits)

text \<open>
  C8 (amended). Parsing never reads standard input. A command line with both
  \<open>printids\<close> and \<open>headersonly\<close> is rejected with an
  \<open>IllegalArgumentException\<close>; so is one that gives both \<open>cluster\<close> and
  \<open>route\<close> a value that is not empty. When neither \<open>cluster\<close> nor
  \<open>route\<close> is given and parsing succeeds, the route of the result is "default".
\<close>

theorem parseCommandLineArguments_exclusive:
  "snd (parseCommandLineArguments parse pv n2 args stdIn) = stdIn \<and>
   (parse args = Inr cl \<and> hasOption cl ''printids'' \<and> hasOption cl ''headersonly'' \<longrightarrow>
      (\<exists>e. parseCommandLineArguments parse pv n2 args stdIn = (Inl e, stdIn))) \<and>
   (parse args = Inr cl \<and> optionValue cl ''cluster'' = Some c \<and> optionValue cl ''route'' = Some r \<and>
    c \<noteq> [] \<and> r \<noteq> [] \<longrightarrow>
      (\<exists>e. parseCommandLineArguments parse pv n2 args stdIn = (Inl e, stdIn))) \<and>
   (parse args = Inr cl \<and> optionValue cl ''cluster'' = None \<and> optionValue cl ''route'' = None \<and>
    parseCommandLineArguments parse pv n2 args stdIn = (Inr params, stdIn') \<longrightarrow>
      route params = ''default'')"
proof (intro conjI impI)
  show "snd (parseCommandLineArguments parse pv n2 args stdIn) = stdIn" by (rule parse_stdIn)
next
  assume "parse args = Inr cl \<and> hasOption cl ''printids'' \<and> hasOption cl ''headersonly''"
  then have "\<exists>e. fst (parseCommandLineArguments parse pv n2 args stdIn) = Inl e"
    by (auto simp: parseCommandLineArguments_def Let_def split: sum.splits prod.splits)
  with parse_stdIn [of parse pv n2 args stdIn]
  show "\<exists>e. parseCommandLineArguments parse pv n2 args stdIn = (Inl e, stdIn)"
    by (metis prod.collapse)
next
  assume "parse args = Inr cl \<and> optionValue cl ''cluster'' = Some c \<and> optionValue cl ''route'' = Some r \<and>
    c \<noteq> [] \<and> r \<noteq> []"
  then have "\<exists>e. fst (parseCommandLineArguments parse pv n2 args stdIn) = Inl e"
    by (auto simp: parseCommandLineArguments_def getOptionValue_def Let_def split: sum.splits prod.splits)
  with parse_stdIn [of parse pv n2 args stdIn]
  show "\<exists>e. parseCommandLineArguments parse pv n2 args stdIn = (Inl e, stdIn)"
    by (metis prod.collapse)
next
  assume "parse args = Inr cl \<and> optionValue cl ''cluster'' = None \<and> optionValue cl ''route'' = None \<and>
    parseCommandLineArguments parse pv n2 args stdIn = (Inr params, stdIn')"
  then show "route params = ''default''"
    by (auto simp: parseCommandLineArguments_def getOptionValue_def Let_def
        split: sum.splits prod.splits if_splits)
qed

theorem parseCommandLineArguments_exclusive_witness:
  "parseCommandLineArguments (\<lambda>a. Inr (command_line [''printids'', ''headersonly''] [] []))
     priority_values 6 [''--printids'', ''--headersonly''] [''id:a:b::1'']
     = (Inl PrintIdsAndHeadersOnly, [''id:a:b::1'']) \<and>
   parseCommandLineArguments
     (\<lambda>a. Inr (command_line [] [(''cluster'', ''foo''), (''route'', ''bar'')] [''id:a:b::1'']))
     priority_values 6 [''--cluster'', ''foo'', ''--route'', ''bar'', ''id:a:b::1''] []
     = (Inl ClusterAndRoute, []) \<and>
   map_sum id route (fst (parseCommandLineArguments
     (\<lambda>a. Inr (command_line [] [] [''id:a:b::1''])) priority_values 6 [''id:a:b::1''] []))
     = Inr ''default''"
proof -
  let ?cl1 = "command_line [''printids'', ''headersonly''] [] []"
  let ?cl2 = "command_line [] [(''cluster'', ''foo''), (''route'', ''bar'')] [''id:a:b::1'']"
  let ?cl3 = "command_line [] [] [''id:a:b::1'']"
  have e1: "parseCommandLineArguments (\<lambda>a. Inr ?cl1)
     priority_values 6 [''--printids'', ''--headersonly''] [''id:a:b::1'']
     = (Inl PrintIdsAndHeadersOnly, [''id:a:b::1''])"
    by (simp add: parseCommandLineArguments_def command_line_def priority_values_def
        getTrace_def getPriority_def parsePriority_def getTimeout_def getDocumentIds_def
        getOptionValue_def)
  have e2: "parseCommandLineArguments (\<lambda>a. Inr ?cl2)
     priority_values 6 [''--cluster'', ''foo'', ''--route'', ''bar'', ''id:a:b::1''] []
     = (Inl ClusterAndRoute, [])"
    by (simp add: parseCommandLineArguments_def command_line_def priority_values_def
        getTrace_def getPriority_def parsePriority_def getTimeout_def getDocumentIds_def
        getOptionValue_def)
  obtain params s where e3: "parseCommandLineArguments (\<lambda>a. Inr ?cl3) priority_values 6
      [''id:a:b::1''] [] = (Inr params, s)"
    by (simp add: parseCommandLineArguments_def command_line_def priority_values_def
        getTrace_def getPriority_def parsePriority_def getTimeout_def getDocumentIds_def
        getOptionValue_def)
  have "route params = ''default''"
    using parseCommandLineArguments_exclusive [of "\<lambda>a. Inr ?cl3" priority_values 6
        "[''id:a:b::1'']" "[]" ?cl3 "[]" "[]" params s] e3
    by (simp add: command_line_def)
  with e1 e2 e3 show ?thesis by simp
qed

theorem cluster_and_route_counterexample:
  "map_sum id route (fst (parseCommandLineArguments
     (\<lambda>a. Inr (command_line [] [(''cluster'', []), (''route'', ''bar'')] [''id:a:b::1'']))
     priority_values 6 [''--cluster'', [], ''--route'', ''bar'', ''id:a:b::1''] []))
     = Inr ''bar'' \<and>
   hasOption (command_line [] [(''cluster'', []), (''route'', ''bar'')] [''id:a:b::1'']) ''cluster'' \<and>
   hasOption (command_line [] [(''cluster'', []), (''route'', ''bar'')] [''id:a:b::1'']) ''route''"
  by (simp add: parseCommandLineArguments_def command_line_def priority_values_def
        getTrace_def getPriority_def parsePriority_def getTimeout_def getDocumentIds_def
        getOptionValue_def)


subsection \<open>WriteableFileChunk: append\<close>

lemma map_find_put: "map_find (map_put k v m) k = Some v"
  by (induction m) auto

text \<open>
  C9 (amended). \<open>append\<close> asserts that the instance is not frozen and that the serial
  number is not below the current one. A call that meets both (with a \<open>setSerialNum\<close>
  that keeps a serial number set to itself) fails on neither assertion, and returns
  unless it has to wait for the writer or the chunk ids are used up. If the bytes do not
  fit and the active chunk is not empty, the active chunk goes into \<open>chunkMap\<close>, an
  \<open>internalFlush\<close> task for it is handed to the executor, and the bytes are the only
  entry of a fresh active chunk; in every other case, also when the bytes do not fit an
  empty active chunk, nothing is rolled over and the bytes are appended to the active
  chunk as it is.
\<close>

theorem append_preconditions_and_rollover:
  "(frozen s \<longrightarrow> append ops sn lid buffer s = Inl AssertNotFrozen) \<and>
   (\<not> frozen s \<and> hasRoom ops (active s) (length buffer) \<and> sn < serialNum s \<longrightarrow>
      append ops sn lid buffer s = Inl AssertSerialNum) \<and>
   (\<not> frozen s \<and> serialNum s \<le> sn \<and>
    setSerialNum ops (serialNum s) (serialNum s) = serialNum s \<longrightarrow>
      append ops sn lid buffer s \<noteq> Inl AssertNotFrozen \<and>
      append ops sn lid buffer s \<noteq> Inl AssertSerialNum \<and>
      (length (chunkMap s) \<le> 1000 \<and> nextChunkId s < getChunkIdLimit ops \<longrightarrow>
         (\<exists>s'. append ops sn lid buffer s =
                 Inr ((fileId s, chunk_id (active s'), length buffer), s') \<and>
            serialNum s' = sn \<and>
            (if \<not> hasRoom ops (active s) (length buffer) \<and> \<not> empty_chunk (active s)
             then map_find (chunkMap s') (chunk_id (active s)) = Some (active s) \<and>
                  executorTasks s' = executorTasks s @ [(chunk_id (active s), serialNum s)] \<and>
                  active s' = \<lparr>chunk_id = nextChunkId s, lids = [(lid, buffer)]\<rparr> \<and>
                  nextChunkId s' = nextChunkId s + 1
             else chunkMap s' = chunkMap s \<and> executorTasks s' = executorTasks s \<and>
                  active s' = (active s)\<lparr>lids := lids (active s) @ [(lid, buffer)]\<rparr> \<and>
                  nextChunkId s' = nextChunkId s))))"
proof (intro conjI impI)
  assume "frozen s"
  then show "append ops sn lid buffer s = Inl AssertNotFrozen"
    by (simp add: append_def)
next
  assume "\<not> frozen s \<and> hasRoom ops (active s) (length buffer) \<and> sn < serialNum s"
  then show "append ops sn lid buffer s = Inl AssertSerialNum"
    by (simp add: append_def)
next
  assume a: "\<not> frozen s \<and> serialNum s \<le> sn \<and>
    setSerialNum ops (serialNum s) (serialNum s) = serialNum s"
  then show "append ops sn lid buffer s \<noteq> Inl AssertNotFrozen"
    by (auto simp: append_def flush_def flushLastIfNonEmpty_def Let_def
        split: sum.splits prod.splits if_splits)
  from a show "append ops sn lid buffer s \<noteq> Inl AssertSerialNum"
    by (auto simp: append_def flush_def flushLastIfNonEmpty_def Let_def
        split: sum.splits prod.splits if_splits)
next
  assume a: "\<not> frozen s \<and> serialNum s \<le> sn \<and>
    setSerialNum ops (serialNum s) (serialNum s) = serialNum s"
    and ok: "length (chunkMap s) \<le> 1000 \<and> nextChunkId s < getChunkIdLimit ops"
  then show "\<exists>s'. append ops sn lid buffer s =
                 Inr ((fileId s, chunk_id (active s'), length buffer), s') \<and>
            serialNum s' = sn \<and>
            (if \<not> hasRoom ops (active s) (length buffer) \<and> \<not> empty_chunk (active s)
             then map_find (chunkMap s') (chunk_id (active s)) = Some (active s) \<and>
                  executorTasks s' = executorTasks s @ [(chunk_id (active s), serialNum s)] \<and>
                  active s' = \<lparr>chunk_id = nextChunkId s, lids = [(lid, buffer)]\<rparr> \<and>
                  nextChunkId s' = nextChunkId s + 1
             else chunkMap s' = chunkMap s \<and> executorTasks s' = executorTasks s \<and>
                  active s' = (active s)\<lparr>lids := lids (active s) @ [(lid, buffer)]\<rparr> \<and>
                  nextChunkId s' = nextChunkId s)"
    by (auto simp: append_def flush_def flushLastIfNonEmpty_def Let_def Chunk_append_def
        new_Chunk_def map_find_put split: sum.splits prod.splits)
qed


lemma append_rolls_over:
  "append small_ops 11 7 ''abcdefghij'' (wfc_with ten_bytes) =
     Inr ((3, 1, 10),
          (wfc_with ten_bytes)\<lparr>serialNum := 11, active := \<lparr>chunk_id = 1, lids = [(7, ''abcdefghij'')]\<rparr>,
             chunkMap := [(0, ten_bytes)], nextChunkId := 2, addedBytes := 10,
             diskFootprint := 10, executorTasks := [(0, 10)]\<rparr>)"
  by (simp add: append_def flush_def flushLastIfNonEmpty_def small_ops_def wfc_with_def
      ten_bytes_def bytes_of_def empty_chunk_def new_Chunk_def Chunk_append_def)

theorem append_preconditions_and_rollover_witness:
  "\<not> frozen (wfc_with ten_bytes) \<and> serialNum (wfc_with ten_bytes) \<le> 11 \<and>
   \<not> hasRoom small_ops ten_bytes 10 \<and> \<not> empty_chunk ten_bytes \<and>
   append small_ops 11 7 ''abcdefghij'' (wfc_with ten_bytes) \<noteq> Inl AssertSerialNum \<and>
   append small_ops 11 7 ''abcdefghij'' (wfc_with ten_bytes) =
     Inr ((3, 1, 10),
          (wfc_with ten_bytes)\<lparr>serialNum := 11, active := \<lparr>chunk_id = 1, lids = [(7, ''abcdefghij'')]\<rparr>,
             chunkMap := [(0, ten_bytes)], nextChunkId := 2, addedBytes := 10,
             diskFootprint := 10, executorTasks := [(0, 10)]\<rparr>)"
proof -
  have h: "\<not> frozen (wfc_with ten_bytes) \<and> serialNum (wfc_with ten_bytes) \<le> 11 \<and>
    setSerialNum small_ops (serialNum (wfc_with ten_bytes)) (serialNum (wfc_with ten_bytes))
      = serialNum (wfc_with ten_bytes)"
    by (simp add: wfc_with_def small_ops_def)
  have r: "\<not> hasRoom small_ops ten_bytes 10 \<and> \<not> empty_chunk ten_bytes"
    by (simp add: small_ops_def ten_bytes_def bytes_of_def empty_chunk_def)
  have "append small_ops 11 7 ''abcdefghij'' (wfc_with ten_bytes) \<noteq> Inl AssertSerialNum"
    using append_preconditions_and_rollover
      [of "wfc_with ten_bytes" small_ops 11 7 "''abcdefghij''"] h
    by blast
  with h r append_rolls_over show ?thesis by blast
qed

theorem append_empty_chunk_counterexample:
  "\<not> hasRoom small_ops (active (wfc_with (new_Chunk 0))) (length ''abcdefghijklmnopq'') \<and>
   append small_ops 11 7 ''abcdefghijklmnopq'' (wfc_with (new_Chunk 0)) =
     Inr ((3, 0, 17),
          (wfc_with (new_Chunk 0))\<lparr>serialNum := 11,
             active := \<lparr>chunk_id = 0, lids = [(7, ''abcdefghijklmnopq'')]\<rparr>,
             chunkMap := [], nextChunkId := 1, addedBytes := 17,
             diskFootprint := 17, executorTasks := []\<rparr>)"
  by (simp add: append_def flush_def flushLastIfNonEmpty_def small_ops_def wfc_with_def
      bytes_of_def empty_chunk_def new_Chunk_def Chunk_append_def)

subsection \<open>WriteableFileChunk: the background writer\<close>

lemma set_map_put: "set (map_put k v m) \<subseteq> insert (k, v) (set m)"
  by (induction m) (auto split: if_splits)

lemma good_map_put: "good_map m \<Longrightarrow> good_map (map_put (pc_chunkId c) (Some c) m)"
  using set_map_put [of "pc_chunkId c" "Some c" m]
  by (fastforce simp: good_map_def)

lemma insertChunks_good:
  "good_map m \<Longrightarrow> None \<notin> set new \<Longrightarrow> insertChunks m new n = Inr m' \<Longrightarrow> good_map m'"
proof (induction m new n rule: insertChunks.induct)
  case (1 m n)
  then show ?case by simp
next
  case (2 m c new n)
  then show ?case by (auto simp: good_map_put split: if_splits)
next
  case (3 m new n)
  then show ?case by simp
qed

lemma fetch_loop_ids:
  "good_map m \<Longrightarrow> fetchNextChain_loop m first chunks = (chunks', m') \<Longrightarrow>
     \<exists>new. chunks' = chunks @ map Some new \<and>
       map pc_chunkId new = [first + length chunks ..< first + length chunks + length new] \<and>
       good_map m'"
proof (induction m first chunks arbitrary: chunks' m' rule: fetchNextChain_loop.induct)
  case (1 first chunks)
  then show ?case by auto
next
  case (2 k v m first chunks)
  from "2.prems"(1) obtain c where v: "v = Some c" and k: "pc_chunkId c = k" and g: "good_map m"
    by (auto simp: good_map_def split: option.splits)
  show ?case
  proof (cases "k = first + length chunks")
    case True
    with "2.prems"(2) v have "fetchNextChain_loop m first (chunks @ [v]) = (chunks', m')" by simp
    from "2.IH" [OF _ g this] True obtain new where
      n: "chunks' = (chunks @ [v]) @ map Some new"
      "map pc_chunkId new = [first + length (chunks @ [v]) ..< first + length (chunks @ [v]) + length new]"
      "good_map m'" by auto
    have "chunks' = chunks @ map Some (c # new)" using n(1) v by simp
    moreover have "map pc_chunkId (c # new) =
        [first + length chunks ..< first + length chunks + length (c # new)]"
    proof -
      have "first + length chunks < first + length chunks + length (c # new)" by simp
      from upt_conv_Cons [OF this]
      have e: "[first + length chunks ..< first + length chunks + length (c # new)] =
          (first + length chunks) #
          [Suc (first + length chunks) ..< first + length chunks + length (c # new)]" .
      have "map pc_chunkId new =
          [Suc (first + length chunks) ..< first + length chunks + length (c # new)]"
        using n(2) by (simp del: upt_Suc)
      with e k True show ?thesis by simp
    qed
    ultimately show ?thesis using n(3) by blast
  next
    case False
    with "2.prems" v have "chunks' = chunks" "m' = (k, v) # m" by auto
    with "2.prems"(1) show ?thesis by auto
  qed
qed

lemma ccm_loop_some:
  "computeChunkMeta_loop L al cmap startPos (map Some new) sz ls cmetaV pend =
     Inr (written, sz', dn, cmetaV', pend') \<Longrightarrow>
   written = new \<and> \<not> dn \<and>
   (\<exists>ps. pend' = pend @ ps \<and>
      map (\<lambda>pc. cm_offset (fst (pend_idx pc))) ps = map fst (writeData_loop new (startPos + sz)))"
proof (induction new arbitrary: sz ls cmetaV pend written)
  case Nil
  then show ?case by simp
next
  case (Cons c new)
  from Cons.prems obtain act cmeta pc w where
    a: "map_find cmap (pc_chunkId c) = Some act"
    and m: "computeChunkMeta1 L al (startPos + sz) c act = Inr (cmeta, pc)"
    and r: "computeChunkMeta_loop L al cmap startPos (map Some new) (sz + length (pc_buf c))
              (cm_lastSerial cmeta) (cmetaV @ [cmeta]) (pend @ [pc]) = Inr (w, sz', dn, cmetaV', pend')"
    and w: "written = c # w"
    by (auto split: option.splits sum.splits if_splits prod.splits)
  from m have off: "cm_offset (fst (pend_idx pc)) = startPos + sz"
    by (auto simp: computeChunkMeta1_def Let_def split: if_splits)
  from Cons.IH [OF r] obtain ps where
    ih: "w = new" "\<not> dn" "pend' = (pend @ [pc]) @ ps"
      "map (\<lambda>pc. cm_offset (fst (pend_idx pc))) ps =
         map fst (writeData_loop new (startPos + (sz + length (pc_buf c))))"
    by auto
  have "pend' = pend @ (pc # ps)" using ih(3) by simp
  moreover have "map (\<lambda>pc. cm_offset (fst (pend_idx pc))) (pc # ps) =
      map fst (writeData_loop (c # new) (startPos + sz))"
    using off ih(4) by (simp add: add.assoc)
  ultimately show ?case using w ih(1,2) by blast
qed

lemma writeData_loop_ids: "map (\<lambda>seg. pc_chunkId (snd seg)) (writeData_loop new pos) = map pc_chunkId new"
  by (induction new arbitrary: pos) auto

lemma length_writeData_loop: "length (writeData_loop new pos) = length new"
  by (induction new arbitrary: pos) auto

lemma flushPending_loop_split:
  "flushPending_loop sn len pend ls os = Inr (pend', ls', os') \<Longrightarrow>
     \<exists>moved. pend = moved @ pend' \<and> os' = os @ map pend_idx moved"
proof (induction pend arbitrary: ls os)
  case Nil
  then show ?case by simp
next
  case (Cons pc pend)
  show ?case
  proof (cases "needFlushPendingChunks sn len (pc # pend)")
    case (Inl e)
    with Cons.prems show ?thesis by simp
  next
    case (Inr need)
    show ?thesis
    proof (cases need)
      case True
      with Inr Cons.prems have
        "flushPending_loop sn len pend (pend_lastSerial pc) (os @ [pend_idx pc]) = Inr (pend', ls', os')"
        by (auto split: if_splits)
      from Cons.IH [OF this] obtain moved where
        "pend = moved @ pend'" "os' = (os @ [pend_idx pc]) @ map pend_idx moved" by auto
      then have "pc # pend = (pc # moved) @ pend' \<and> os' = os @ map pend_idx (pc # moved)" by simp
      then show ?thesis by blast
    next
      case False
      with Inr Cons.prems have "pend' = pc # pend" "os' = os" by auto
      then show ?thesis by auto
    qed
  qed
qed

lemma inv_RollOver:
  "writer_inv s0 s \<Longrightarrow> writer_inv s0 (s\<lparr>fw_chunkMap := m\<rparr>)"
  by (simp add: writer_inv_def expected_def index_offsets_def)

lemma inv_enque:
  "writer_inv s0 s \<Longrightarrow> writer_inv s0 (enque (Some c) s)"
  by (auto simp: writer_inv_def expected_def index_offsets_def enque_def Let_def
      split: writer_task.splits)

lemma inv_tail:
  "writer_inv s0 s \<Longrightarrow> fileWriter_tail s = Inr s' \<Longrightarrow> writer_inv s0 s'"
  by (auto simp: writer_inv_def expected_def index_offsets_def fileWriter_tail_def
      split: writer_task.splits if_splits)

lemma inv_flushPending:
  assumes "writer_inv s0 s" "flushPendingChunks sn s = Inr s'"
  shows "writer_inv s0 s'"
proof (cases "needFlushPendingChunks sn (dataFileSize s) (pendingChunks s)")
  case (Inl e)
  with assms(2) show ?thesis by (simp add: flushPendingChunks_def)
next
  case (Inr need)
  show ?thesis
  proof (cases need)
    case False
    with Inr assms show ?thesis by (simp add: flushPendingChunks_def)
  next
    case True
    with Inr assms(2) obtain pend ls os where
      l: "flushPending_loop sn (dataFileSize s) (pendingChunks s) (lastPersistedSerialNum s) []
            = Inr (pend, ls, os)"
      and s': "s' = s\<lparr>pendingChunks := pend, idxFile := idxFile s @ os,
                lastPersistedSerialNum :=
                  (if lastPersistedSerialNum s < ls then ls else lastPersistedSerialNum s)\<rparr>"
      by (auto simp: flushPendingChunks_def Let_def split: sum.splits)
    from flushPending_loop_split [OF l] obtain moved where
      "pendingChunks s = moved @ pend" "os = map pend_idx moved" by auto
    then have "index_offsets s' = index_offsets s"
      by (simp add: s' index_offsets_def)
    moreover have "dataFile s' = dataFile s" "expected s' = expected s" "writeQ s' = writeQ s"
      "orderedChunks s' = orderedChunks s" "writeTaskIsRunning s' = writeTaskIsRunning s"
      "writerTask s' = writerTask s"
      by (simp_all add: s' expected_def)
    ultimately show ?thesis using assms(1)
      by (simp add: writer_inv_def)
  qed
qed

lemma inv_body:
  assumes inv: "writer_inv s0 s" and b: "fileWriter_body L s = Inr s'"
  shows "writer_inv s0 s'"
proof -
  from b obtain first where t: "writerTask s = Scheduled first"
    by (auto simp: fileWriter_body_def split: writer_task.splits)
  from inv obtain new where
    d: "dataFile s = dataFile s0 @ new"
    and ids: "map (\<lambda>seg. pc_chunkId (snd seg)) new =
           [firstChunkIdToBeWritten s0 ..< firstChunkIdToBeWritten s0 + length new]"
    and io: "index_offsets s = index_offsets s0 @ map fst new"
    and ex: "expected s = firstChunkIdToBeWritten s0 + length new"
    and q: "None \<notin> set (writeQ s)" and g: "good_map (orderedChunks s)"
    and r: "writeTaskIsRunning s = (writerTask s \<noteq> NoTask)"
    by (auto simp: writer_inv_def)
  from ex t have first: "first = firstChunkIdToBeWritten s0 + length new"
    by (simp add: expected_def)
  show ?thesis
  proof (cases "writeQ s = []")
    case True
    with b t have "s' = s\<lparr>writeQ := [], writerTask := Finishing first False\<rparr>"
      by (simp add: fileWriter_body_def drainQ_def)
    with d ids io first g r t show ?thesis
      by (auto simp: writer_inv_def expected_def index_offsets_def)
  next
    case False
    with b t obtain inserted where
      ins: "insertChunks (orderedChunks s) (writeQ s) first = Inr inserted"
      by (auto simp: fileWriter_body_def drainQ_def split: sum.splits)
    obtain chunks remaining where f: "fetchNextChain inserted first = (chunks, remaining)"
      by (cases "fetchNextChain inserted first")
    let ?startPos = "getAlignedStartPos (dataFileSize s)"
    let ?s2 = "s\<lparr>writeQ := [], orderedChunks := remaining\<rparr>"
    from b t False ins f obtain written sz dn cmetaV pend cmap where
      c: "computeChunkMeta L chunks ?startPos ?s2 = Inr (written, sz, dn, cmetaV, pend)"
      and s': "s' = (writeData written ?startPos sz (?s2\<lparr>pendingChunks := pend\<rparr>))
                 \<lparr>fw_chunkMap := cmap, writerTask := Finishing (first + length chunks) dn\<rparr>"
      by (auto simp: fileWriter_body_def drainQ_def Let_def split: sum.splits prod.splits)
    from insertChunks_good [OF g q ins] have gi: "good_map inserted" .
    from fetch_loop_ids [OF gi f [unfolded fetchNextChain_def]] obtain cs where
      ch: "chunks = map Some cs" and cids: "map pc_chunkId cs = [first ..< first + length cs]"
      and gr: "good_map remaining" by auto
    from c obtain ls where
      "computeChunkMeta_loop L (fw_alignment s) (fw_chunkMap s) ?startPos (map Some cs) 0 ls []
         (pendingChunks s) = Inr (written, sz, dn, cmetaV, pend)"
      by (auto simp: computeChunkMeta_def Let_def ch split: if_splits)
    from ccm_loop_some [OF this] obtain ps where
      w: "written = cs" and nd: "\<not> dn" and p: "pend = pendingChunks s @ ps"
      and po: "map (\<lambda>pc. cm_offset (fst (pend_idx pc))) ps = map fst (writeData_loop cs ?startPos)"
      by auto
    let ?new = "new @ writeData_loop cs ?startPos"
    have 1: "dataFile s' = dataFile s0 @ ?new"
      by (simp add: s' writeData_def d w)
    have 2: "map (\<lambda>seg. pc_chunkId (snd seg)) ?new =
        [firstChunkIdToBeWritten s0 ..< firstChunkIdToBeWritten s0 + length ?new]"
    proof -
      have "[firstChunkIdToBeWritten s0 ..< firstChunkIdToBeWritten s0 + length new + length cs] =
          [firstChunkIdToBeWritten s0 ..< firstChunkIdToBeWritten s0 + length new] @
          [firstChunkIdToBeWritten s0 + length new ..<
             firstChunkIdToBeWritten s0 + length new + length cs]"
        by (rule upt_add_eq_append) simp
      then show ?thesis
        by (simp add: ids writeData_loop_ids cids first length_writeData_loop add.assoc)
    qed
    have 3: "index_offsets s' = index_offsets s0 @ map fst ?new"
      using io po by (simp add: s' writeData_def index_offsets_def p)
    have 4: "expected s' = firstChunkIdToBeWritten s0 + length ?new"
      by (simp add: s' writeData_def expected_def first ch length_writeData_loop)
    have 5: "None \<notin> set (writeQ s')" "good_map (orderedChunks s')"
      "writeTaskIsRunning s' = (writerTask s' \<noteq> NoTask)"
      "\<forall>n. writerTask s' \<noteq> Finishing n True"
      using gr r t nd by (simp_all add: s' writeData_def)
    from 1 2 3 4 5 show ?thesis unfolding writer_inv_def by blast
  qed
qed

lemma inv_step:
  "writer_inv s0 s \<Longrightarrow> ev \<noteq> Enque None \<Longrightarrow> step L ev s = Inr s' \<Longrightarrow> writer_inv s0 s'"
proof (cases ev)
  case (RollOver c)
  assume "writer_inv s0 s" "step L ev s = Inr s'"
  with RollOver show ?thesis by (auto simp: step_def intro: inv_RollOver)
next
  case (Enque tmp)
  assume "writer_inv s0 s" "step L ev s = Inr s'" "ev \<noteq> Enque None"
  with Enque show ?thesis by (cases tmp) (auto simp: step_def intro: inv_enque)
next
  case WriterBody
  assume "writer_inv s0 s" "step L ev s = Inr s'"
  with WriterBody show ?thesis by (auto simp: step_def intro: inv_body)
next
  case WriterTail
  assume "writer_inv s0 s" "step L ev s = Inr s'"
  with WriterTail show ?thesis by (auto simp: step_def intro: inv_tail)
next
  case (FlushPendingChunks sn)
  assume "writer_inv s0 s" "step L ev s = Inr s'"
  with FlushPendingChunks show ?thesis by (auto simp: step_def intro: inv_flushPending)
qed

lemma inv_run:
  "writer_inv s0 s \<Longrightarrow> \<forall>ev \<in> set evs. ev \<noteq> Enque None \<Longrightarrow> run L evs s = Inr s' \<Longrightarrow>
     writer_inv s0 s'"
proof (induction evs arbitrary: s)
  case Nil
  then show ?case by simp
next
  case (Cons ev evs)
  from Cons.prems(3) obtain s1 where s1: "step L ev s = Inr s1" and r: "run L evs s1 = Inr s'"
    by (auto split: sum.splits)
  from Cons.prems(1,2) s1 have "writer_inv s0 s1" by (auto intro: inv_step)
  with Cons.IH r Cons.prems(2) show ?case by auto
qed

lemma inv_init:
  "writeQ s0 = [] \<Longrightarrow> orderedChunks s0 = [] \<Longrightarrow> \<not> writeTaskIsRunning s0 \<Longrightarrow>
     writerTask s0 = NoTask \<Longrightarrow> writer_inv s0 s0"
  by (simp add: writer_inv_def expected_def good_map_def)

lemma fetch_loop_exact:
  "good_map m \<Longrightarrow> fetchNextChain_loop m first chunks = (chunks', rest) \<Longrightarrow>
     \<exists>cs. chunks' = chunks @ map Some cs \<and>
       m = map (\<lambda>c. (pc_chunkId c, Some c)) cs @ rest \<and>
       (rest = [] \<or> fst (hd rest) \<noteq> first + length chunks + length cs)"
proof (induction m first chunks arbitrary: chunks' rest rule: fetchNextChain_loop.induct)
  case (1 first chunks)
  then show ?case by auto
next
  case (2 k v m first chunks)
  from "2.prems"(1) obtain c where v: "v = Some c" and k: "pc_chunkId c = k" and g: "good_map m"
    by (auto simp: good_map_def split: option.splits)
  show ?case
  proof (cases "k = first + length chunks")
    case True
    with "2.prems"(2) v have "fetchNextChain_loop m first (chunks @ [v]) = (chunks', rest)" by simp
    from "2.IH" [OF _ g this] True obtain cs where
      n: "chunks' = (chunks @ [v]) @ map Some cs"
      "m = map (\<lambda>c. (pc_chunkId c, Some c)) cs @ rest"
      "rest = [] \<or> fst (hd rest) \<noteq> first + length (chunks @ [v]) + length cs" by auto
    have "chunks' = chunks @ map Some (c # cs)" using n(1) v by simp
    moreover have "(k, v) # m = map (\<lambda>c. (pc_chunkId c, Some c)) (c # cs) @ rest"
      using n(2) v k by simp
    moreover have "rest = [] \<or> fst (hd rest) \<noteq> first + length chunks + length (c # cs)"
      using n(3) by simp
    ultimately show ?thesis by blast
  next
    case False
    with "2.prems" v have "chunks' = chunks" "rest = (k, v) # m" by auto
    with False show ?thesis by auto
  qed
qed

text \<open>
  C1. Started with empty queues and no writer task, and as long as \<open>freeze\<close> has not
  enqueued the end marker, whatever the order in which chunks are rolled over, packed
  and enqueued and the writer task runs: the chunks written to the data file since the
  start have the consecutive ids \<open>_firstChunkIdToBeWritten\<close>, +1, +2, ... in this
  order (so a chunk is written only right after its predecessor), and the index
  records, written or pending, are in the same order. \<open>fetchNextChain\<close> returns
  exactly the chunks with the ids \<open>firstChunkId\<close>, +1, ... that head
  \<open>orderedChunks\<close>, and stops at the first gap.
\<close>

theorem fileWriter_writes_in_chunk_id_order:
  "(writeQ s0 = [] \<and> orderedChunks s0 = [] \<and> \<not> writeTaskIsRunning s0 \<and> writerTask s0 = NoTask \<and>
    (\<forall>ev \<in> set evs. ev \<noteq> Enque None) \<and> run L evs s0 = Inr s \<longrightarrow>
      (\<exists>new. dataFile s = dataFile s0 @ new \<and>
         map (\<lambda>seg. pc_chunkId (snd seg)) new =
           [firstChunkIdToBeWritten s0 ..< firstChunkIdToBeWritten s0 + length new] \<and>
         index_offsets s = index_offsets s0 @ map fst new)) \<and>
   (good_map m \<and> fetchNextChain m first = (chunks, rest) \<longrightarrow>
      (\<exists>cs. chunks = map Some cs \<and>
         map pc_chunkId cs = [first ..< first + length cs] \<and>
         m = map (\<lambda>c. (pc_chunkId c, Some c)) cs @ rest \<and>
         (rest = [] \<or> fst (hd rest) \<noteq> first + length cs)))"
proof (intro conjI impI)
  assume a: "writeQ s0 = [] \<and> orderedChunks s0 = [] \<and> \<not> writeTaskIsRunning s0 \<and>
    writerTask s0 = NoTask \<and> (\<forall>ev \<in> set evs. ev \<noteq> Enque None) \<and> run L evs s0 = Inr s"
  then have "writer_inv s0 s0" by (simp add: inv_init)
  with a have "writer_inv s0 s" by (blast intro: inv_run)
  then show "\<exists>new. dataFile s = dataFile s0 @ new \<and>
         map (\<lambda>seg. pc_chunkId (snd seg)) new =
           [firstChunkIdToBeWritten s0 ..< firstChunkIdToBeWritten s0 + length new] \<and>
         index_offsets s = index_offsets s0 @ map fst new"
    unfolding writer_inv_def by blast
next
  assume a: "good_map m \<and> fetchNextChain m first = (chunks, rest)"
  then have g: "good_map m" and f: "fetchNextChain_loop m first [] = (chunks, rest)"
    by (simp_all add: fetchNextChain_def)
  from fetch_loop_exact [OF g f] obtain cs where
    1: "chunks = map Some cs" "m = map (\<lambda>c. (pc_chunkId c, Some c)) cs @ rest"
      "rest = [] \<or> fst (hd rest) \<noteq> first + length cs" by auto
  from fetch_loop_ids [OF g f] obtain cs' where
    2: "chunks = map Some cs'" "map pc_chunkId cs' = [first ..< first + length cs']" by auto
  from 1(1) 2(1) have "cs' = cs" by (simp add: inj_map_eq_map)
  with 1 2 show "\<exists>cs. chunks = map Some cs \<and>
         map pc_chunkId cs = [first ..< first + length cs] \<and>
         m = map (\<lambda>c. (pc_chunkId c, Some c)) cs @ rest \<and>
         (rest = [] \<or> fst (hd rest) \<noteq> first + length cs)" by blast
qed

lemmas writer_defs =
  six_before_five_def new_writer_def step_def enque_def fileWriter_body_def
  fileWriter_tail_def drainQ_def fetchNextChain_def computeChunkMeta_def
  computeChunkMeta1_def writeData_def getAlignedStartPos_def Alignment_def
  flushPendingChunks_def needFlushPendingChunks_def chunk_no_def packed_def Let_def

lemma run_six_before_five:
  "map_sum id (\<lambda>s. (written_ids s, map fst (dataFile s), index_offsets s))
     (run (\<lambda>c. 0) six_before_five (new_writer 5)) = Inr ([5, 6, 7], [0, 3, 4096], [0, 3, 4096])"
  by (simp add: writer_defs written_ids_def index_offsets_def)

lemma run_six_first:
  "map_sum id (\<lambda>s. (written_ids s, map fst (orderedChunks s)))
     (run (\<lambda>c. 0) (take 5 six_before_five) (new_writer 5)) = Inr ([], [6])"
  by (simp add: writer_defs written_ids_def)

theorem fileWriter_writes_in_chunk_id_order_witness:
  "map_sum id (\<lambda>s. (written_ids s, map fst (dataFile s), index_offsets s))
     (run (\<lambda>c. 0) six_before_five (new_writer 5)) = Inr ([5, 6, 7], [0, 3, 4096], [0, 3, 4096]) \<and>
   map_sum id (\<lambda>s. (written_ids s, map fst (orderedChunks s)))
     (run (\<lambda>c. 0) (take 5 six_before_five) (new_writer 5)) = Inr ([], [6]) \<and>
   fetchNextChain [(5, Some (packed 5)), (6, Some (packed 6)), (8, Some (packed 8))] 5 =
     ([Some (packed 5), Some (packed 6)], [(8, Some (packed 8))]) \<and>
   fetchNextChain [(6, Some (packed 6)), (7, Some (packed 7))] 5 =
     ([], [(6, Some (packed 6)), (7, Some (packed 7))]) \<and>
   (\<exists>cs. [Some (packed 5), Some (packed 6)] = map Some cs \<and>
      map pc_chunkId cs = [5 ..< 5 + length cs] \<and>
      [(5, Some (packed 5)), (6, Some (packed 6)), (8, Some (packed 8))] =
        map (\<lambda>c. (pc_chunkId c, Some c)) cs @ [(8, Some (packed 8))] \<and>
      ([(8 :: nat, Some (packed 8))] = [] \<or> fst (hd [(8, Some (packed 8))]) \<noteq> 5 + length cs))"
proof -
  let ?m = "[(5, Some (packed 5)), (6, Some (packed 6)), (8, Some (packed 8))]"
  have g: "good_map ?m" by (simp add: good_map_def packed_def)
  have f: "fetchNextChain ?m 5 = ([Some (packed 5), Some (packed 6)], [(8, Some (packed 8))])"
    by (simp add: fetchNextChain_def)
  have f2: "fetchNextChain [(6, Some (packed 6)), (7, Some (packed 7))] 5 =
     ([], [(6, Some (packed 6)), (7, Some (packed 7))])"
    by (simp add: fetchNextChain_def)
  show ?thesis
    by (intro conjI run_six_before_five run_six_first f f2
        fileWriter_writes_in_chunk_id_order [THEN conjunct2, rule_format, OF conjI, OF g f])
qed

subsection \<open>AbsDistanceDFW\<close>

lemma isqrt_correct: "isqrt n * isqrt n \<le> n \<and> n < (isqrt n + 1) * (isqrt n + 1)"
proof (induction n rule: isqrt.induct)
  case (1 n)
  show ?case
  proof (cases "n < 2")
    case True
    then have "isqrt n = n" by (subst isqrt.simps) simp
    with True show ?thesis by auto
  next
    case False
    define m where "m = isqrt (n div 4)"
    from "1.IH" [OF False] have ih: "m * m \<le> n div 4" "n div 4 < (m + 1) * (m + 1)"
      by (simp_all add: m_def)
    have lo: "(2 * m) * (2 * m) \<le> n"
    proof -
      have "(2 * m) * (2 * m) = 4 * (m * m)" by simp
      also have "\<dots> \<le> 4 * (n div 4)" using ih(1) by simp
      also have "\<dots> \<le> n" by simp
      finally show ?thesis .
    qed
    have hi: "n < (2 * m + 2) * (2 * m + 2)"
    proof -
      have "n div 4 + 1 \<le> (m + 1) * (m + 1)" using ih(2) by simp
      then have "4 * (n div 4 + 1) \<le> 4 * ((m + 1) * (m + 1))" by simp
      moreover have "n < 4 * (n div 4 + 1)" by simp
      moreover have "4 * ((m + 1) * (m + 1)) = (2 * m + 2) * (2 * m + 2)" by (simp add: algebra_simps)
      ultimately show ?thesis by linarith
    qed
    have eq: "isqrt n = (if (2 * m + 1) * (2 * m + 1) \<le> n then 2 * m + 1 else 2 * m)"
      using False by (subst isqrt.simps) (simp add: m_def Let_def)
    show ?thesis
    proof (cases "(2 * m + 1) * (2 * m + 1) \<le> n")
      case True
      with eq hi show ?thesis by (simp add: algebra_simps)
    next
      case False
      with eq lo show ?thesis by (simp add: algebra_simps)
    qed
  qed
qed

lemma square_less_imp_less: "(a::nat) * a < b * b \<Longrightarrow> a < b"
  by (metis mult_le_mono not_le)

lemma isqrt_unique: "r * r \<le> n \<Longrightarrow> n < (r + 1) * (r + 1) \<Longrightarrow> isqrt n = r"
proof -
  assume a: "r * r \<le> n" "n < (r + 1) * (r + 1)"
  from isqrt_correct [of n] a have 1: "isqrt n * isqrt n < (r + 1) * (r + 1)"
    and 2: "r * r < (isqrt n + 1) * (isqrt n + 1)" by linarith+
  have "isqrt n < r + 1" using 1 by (rule square_less_imp_less)
  moreover have "r < isqrt n + 1" using 2 by (rule square_less_imp_less)
  ultimately show ?thesis by simp
qed

lemma bitlen_bounds: "n \<noteq> 0 \<Longrightarrow> 2 ^ (bitlen n - 1) \<le> n \<and> n < 2 ^ bitlen n"
proof (induction n rule: bitlen.induct)
  case (1 n)
  show ?case
  proof (cases "n div 2 = 0")
    case True
    with 1 have n1: "n = 1" by (auto simp: div_eq_0_iff)
    have "bitlen 0 = 0" by (subst bitlen.simps) simp
    then have "bitlen 1 = 1" by (subst bitlen.simps) simp
    with n1 show ?thesis by simp
  next
    case False
    from "1.IH" [OF "1.prems" False] have ih: "2 ^ (bitlen (n div 2) - 1) \<le> n div 2"
      "n div 2 < 2 ^ bitlen (n div 2)" by auto
    have b: "bitlen n = Suc (bitlen (n div 2))" using "1.prems" by (subst bitlen.simps) simp
    have pos: "bitlen (n div 2) \<noteq> 0" using False by (subst bitlen.simps) simp
    define p :: nat where "p = 2 ^ (bitlen (n div 2) - 1)"
    from pos have "(2::nat) ^ bitlen (n div 2) = 2 * p"
      by (cases "bitlen (n div 2)") (auto simp: p_def)
    with ih have "p \<le> n div 2" "n div 2 < 2 * p" by (simp_all add: p_def)
    then have "2 * p \<le> n" "n < 4 * p" by arith+
    moreover have "(2::nat) ^ (bitlen n - 1) = 2 * p" "(2::nat) ^ bitlen n = 4 * p"
      using pos by (cases "bitlen (n div 2)"; simp add: b p_def)+
    ultimately show ?thesis by simp
  qed
qed

lemma bitlen_unique: "2 ^ k \<le> n \<Longrightarrow> n < 2 ^ Suc k \<Longrightarrow> bitlen n = Suc k"
proof -
  assume a: "2 ^ k \<le> n" "n < 2 ^ Suc k"
  then have n0: "n \<noteq> 0" by auto
  from bitlen_bounds [OF n0] a have 1: "(2::nat) ^ (bitlen n - 1) < 2 ^ Suc k"
    and 2: "(2::nat) ^ k < 2 ^ bitlen n"
    by linarith+
  have "bitlen n - 1 < Suc k" using 1 by (rule power_less_imp_less_exp [rotated]) simp
  moreover have "k < bitlen n" using 2 by (rule power_less_imp_less_exp [rotated]) simp
  ultimately show ?thesis by simp
qed


lemma double_of_INT64_MAX: "double_of_nat 9223372036854775807 = 9223372036854775808"
proof -
  have "bitlen 9223372036854775807 = Suc 62" by (rule bitlen_unique) simp_all
  then show ?thesis by (simp add: double_of_nat_def Let_def)
qed

lemma sqrt_double_2_63: "sqrt_double 9223372036854775808 = (6369051672525773, 21)"
proof -
  have b: "bitlen 9223372036854775808 = Suc 63" by (rule bitlen_unique) simp_all
  have i: "isqrt 40564819207303340847894502572032 = 6369051672525772"
    by (rule isqrt_unique) simp_all
  show ?thesis by (simp add: sqrt_double_def Let_def b i)
qed

lemma sqrt_trunc_INT64_MAX: "sqrt_trunc 9223372036854775807 = 3037000499"
  by (simp add: sqrt_trunc_def double_of_INT64_MAX sqrt_double_2_63)

lemma sqrt_u64_INT64_MAX: "sqrt_u64 INT64_MAX = 3037000499"
  by (simp add: sqrt_u64_def INT64_MAX_def sqrt_trunc_INT64_MAX)

lemma isqrt_INT64_MAX: "isqrt (2 ^ 63 - 1) = 3037000499"
  by (rule isqrt_unique) simp_all

lemma stringify_3037000499: "stringify 3037000499 = ''3037000499''"
  by (simp add: stringify.simps)







lemma isqrt_floor_sqrt: "isqrt n = nat \<lfloor>sqrt (real n)\<rfloor>"
proof -
  from isqrt_correct [of n] have "real (isqrt n * isqrt n) \<le> real n"
    and "real n < real ((isqrt n + 1) * (isqrt n + 1))"
    by (simp_all only: of_nat_le_iff of_nat_less_iff)
  then have 1: "real (isqrt n) * real (isqrt n) \<le> real n"
    and 2: "real n < (real (isqrt n) + 1) * (real (isqrt n) + 1)"
    by (simp_all only: of_nat_mult of_nat_add of_nat_1)
  have "real (isqrt n) \<le> sqrt (real n)"
    using 1 by (intro real_le_rsqrt) (simp add: power2_eq_square)
  moreover have "sqrt (real n) < real (isqrt n) + 1"
    using 2 by (intro real_less_lsqrt) (simp_all add: power2_eq_square)
  ultimately have "\<lfloor>sqrt (real n)\<rfloor> = int (isqrt n)"
    by (intro floor_unique) simp_all
  then show ?thesis by simp
qed











lemma findMinDistance_eq:
  "findMinDistance decode location vals =
     sqrt_u64 (findMinDistance_loop decode location vals INT64_MAX)"
  by (simp add: findMinDistance_def attribute_get_def)






lemma findMinDistance_Nil: "findMinDistance decode location [] = 3037000499"
  by (simp add: findMinDistance_eq sqrt_u64_INT64_MAX)

lemma insertField_located:
  assumes "st1 = (if parsedLocation st = None then ParseLocation st else st)"
    and "args_location st \<noteq> []"
    and "parsedLocation st1 = Some location"
  shows "AbsDistanceDFW_insertField decode ParseLocation attribute docid st t =
     (if getParseError location = None
      then Inr (insert_distance t (findMinDistance decode location (attribute docid)), st1)
      else Inr ([], st1))"
  using assms by (simp add: AbsDistanceDFW_insertField_def Let_def)











lemma located_id:
  "located = (if parsedLocation located = None then id located else located)"
  by simp

lemma located_parsed:
  "args_location located \<noteq> []"
  "parsedLocation located = Some origin"
  "getParseError origin = None"
  "getXAspect origin = 0"
  by (simp_all add: located_def origin_def)

lemma args_location_located: "args_location located = ''(2,0,0,1,0,1,0)''"
  by (simp add: located_def)

lemma insertField_origin:
  "AbsDistanceDFW_insertField decode id attribute docid located t =
     Inr (insert_distance t (findMinDistance decode origin (attribute docid)), located)"
  using insertField_located [where ?st1.0 = located and st = located and ParseLocation = id
      and location = origin and decode = decode and attribute = attribute and docid = docid
      and t = t, OF located_id located_parsed(1,2)]
  by (simp add: located_parsed)

lemma insert_distance_RES_INT: "insert_distance RES_INT (of_nat n) = [SLong (sint (of_nat n :: 64 word))]"
  by (simp add: insert_distance_def)




text \<open>
  C10. When the geo-position attribute holds no value for the document and the location
  string of the query is present and parsed without error, the distance computed is
  3037000499, the floor of the square root of \<open>2^63 - 1\<close>, the initial value of the
  accumulator, and \<open>insertField\<close> inserts it: as a long into a field of type int, as
  the decimal string into a field of a string type and as data into a field of a data
  type. Into a field of any other type nothing is inserted.
\<close>

theorem AbsDistanceDFW_no_values:
  assumes "st1 = (if parsedLocation st = None then ParseLocation st else st)"
    and "args_location st \<noteq> []"
    and "parsedLocation st1 = Some location"
    and "getParseError location = None"
    and "attribute docid = []"
  shows "unat INT64_MAX = 2 ^ 63 - 1 \<and>
         (3037000499 :: nat) = nat \<lfloor>sqrt (2 ^ 63 - 1)\<rfloor> \<and>
         findMinDistance decode location (attribute docid) = 3037000499 \<and>
         AbsDistanceDFW_insertField decode ParseLocation attribute docid st t =
           Inr (insert_distance t 3037000499, st1) \<and>
         insert_distance t 3037000499 =
           (if t = RES_INT then [SLong 3037000499]
            else if t = RES_STRING \<or> t = RES_LONG_STRING \<or> t = RES_XMLSTRING
            then [SString ''3037000499'']
            else if t = RES_LONG_DATA \<or> t = RES_DATA then [SData ''3037000499'']
            else [])"
proof (intro conjI)
  show "unat INT64_MAX = 2 ^ 63 - 1" by (simp add: INT64_MAX_def)
  have "isqrt 9223372036854775807 = nat \<lfloor>sqrt (real 9223372036854775807)\<rfloor>"
    by (rule isqrt_floor_sqrt)
  moreover have "isqrt 9223372036854775807 = 3037000499" by (rule isqrt_unique) simp_all
  ultimately show "(3037000499 :: nat) = nat \<lfloor>sqrt (2 ^ 63 - 1)\<rfloor>" by simp
  show "findMinDistance decode location (attribute docid) = 3037000499"
    by (simp add: assms(5) findMinDistance_Nil)
  then show "AbsDistanceDFW_insertField decode ParseLocation attribute docid st t =
           Inr (insert_distance t 3037000499, st1)"
    using insertField_located [where ?st1.0 = st1 and st = st and ParseLocation = ParseLocation
        and location = location and decode = decode and attribute = attribute and docid = docid
        and t = t, OF assms(1,2,3)] assms(4)
    by simp
  show "insert_distance t 3037000499 =
           (if t = RES_INT then [SLong 3037000499]
            else if t = RES_STRING \<or> t = RES_LONG_STRING \<or> t = RES_XMLSTRING
            then [SString ''3037000499'']
            else if t = RES_LONG_DATA \<or> t = RES_DATA then [SData ''3037000499'']
            else [])"
    by (simp add: insert_distance_def stringify_3037000499)
qed

theorem AbsDistanceDFW_no_values_witness:
  "AbsDistanceDFW_insertField decode_halves id (\<lambda>docid. []) 1 located RES_INT =
     Inr ([SLong 3037000499], located) \<and>
   AbsDistanceDFW_insertField decode_halves id (\<lambda>docid. []) 1 located RES_STRING =
     Inr ([SString ''3037000499''], located)"
  using AbsDistanceDFW_no_values [where ?st1.0 = located and st = located and ParseLocation = id
      and location = origin and attribute = "\<lambda>docid. []" and docid = 1 and decode = decode_halves
      and t = RES_INT, OF located_id located_parsed(1,2,3) refl,
      THEN conjunct2, THEN conjunct2, THEN conjunct2]
    AbsDistanceDFW_no_values [where ?st1.0 = located and st = located and ParseLocation = id
      and location = origin and attribute = "\<lambda>docid. []" and docid = 1 and decode = decode_halves
      and t = RES_STRING, OF located_id located_parsed(1,2,3) refl,
      THEN conjunct2, THEN conjunct2, THEN conjunct2]
  by simp

text \<open>
  Into a field of type float the writer inserts nothing, also when no value is stored.
\<close>

theorem no_values_float_field_counterexample:
  "args_location located = ''(2,0,0,1,0,1,0)'' \<and> parsedLocation located = Some origin \<and>
   getParseError origin = None \<and>
   AbsDistanceDFW_insertField decode_halves id (\<lambda>docid. []) 1 located RES_FLOAT =
     Inr ([], located)"
  by (simp add: args_location_located located_parsed insertField_origin insert_distance_def)

end
